theory Spec2Isabelle
  imports Complex_Main "HOL-Library.Word"
begin

section \<open>The Variable entity of SonnetCpp (src/SonnetCpp/Variable.h)\<close>

text \<open>
  The header declares the class \<open>Variable : ModelEntity\<close>. Its bodies store doubles,
  compare them through the helpers of Utils.h and pass them on; they never compute with
  them. A double is therefore a \<open>real\<close> here, and every helper of Utils.h that decides
  something about doubles is a field of the record \<open>Utils\<close>, so that each result below
  holds for whatever these helpers compute. The \<open>int\<close> fields are 32 bit words whose
  comparisons read the word as two's complement and whose arithmetic wraps around, as it
  does on the machines the library runs on; the language itself leaves an \<open>int\<close> that
  overflows undefined. The results on freezing that bound the number of calls by \<open>2^31\<close>
  stay clear of every overflow. The results on ids do not: the \<open>2^31\<close>-th construction
  already adds one to the largest \<open>int\<close>, and ids that differ up to \<open>2^32\<close> constructions
  do so because the counter wraps.
\<close>

subsection \<open>Data\<close>

type_synonym int32 = "32 word"

text \<open>A solver is known to the variable by reference only: a solver is its identity.\<close>

type_synonym Solver = nat

datatype VariableType = Continuous | Integer

datatype SonnetException = SonnetException string

text \<open>
  Utils.h is not part of the sources. \<open>getInfinity\<close> is \<open>MathUtils::getInfinity()\<close>,
  \<open>CompareToEps a b\<close> is \<open>a.CompareToEps(b)\<close>, \<open>IsBetween v l u\<close> is
  \<open>v.IsBetween(l, u)\<close> and \<open>IsInteger v\<close> is \<open>v.IsInteger()\<close>.
\<close>

record Utils =
  getInfinity :: real
  CompareToEps :: "real \<Rightarrow> real \<Rightarrow> int"
  IsBetween :: "real \<Rightarrow> real \<Rightarrow> real \<Rightarrow> bool"
  IsInteger :: "real \<Rightarrow> bool"

text \<open>
  Modelled from the spec: ModelEntity.h is not part of the sources. The members of the
  base class that Variable.h uses are the id, the name, the collection \<open>solvers\<close> that
  the setters iterate over, the property \<open>Assigned\<close> and \<open>Assign(solver, offset)\<close>, which
  "records which solver/offset pair the variable maps to".
\<close>

record ModelEntity =
  idV :: int32
  name :: string
  solvers :: "Solver list"
  assignedSolver :: "Solver option"
  offset :: int32

text \<open>The fields of Variable, in the order of the class (lines 654 to 672).\<close>

record Variable = ModelEntity +
  frozen :: int32
  valueV :: real
  reducedCost :: real
  upper :: real
  lower :: real
  typeV :: VariableType

text \<open>
  What a solver is told. The first argument is the solver that receives the call, the
  second the variable passed as \<open>this\<close>, named by its id.
\<close>

datatype Notification =
    SetVariableUpper Solver int32 real
  | SetVariableLower Solver int32 real
  | SetVariableType Solver int32 VariableType
  | SetVariableName Solver int32 string
  | SetVariableBounds Solver int32 real real

fun receiver :: "Notification \<Rightarrow> Solver" where
  "receiver (SetVariableUpper s _ _) = s"
| "receiver (SetVariableLower s _ _) = s"
| "receiver (SetVariableType s _ _) = s"
| "receiver (SetVariableName s _ _) = s"
| "receiver (SetVariableBounds s _ _ _) = s"

text \<open>The calls one solver received, in order.\<close>

definition received :: "Solver \<Rightarrow> Notification list \<Rightarrow> Notification list" where
  "received s ns = filter (\<lambda>n. receiver n = s) ns"

text \<open>\<open>foreach(Solver solver in solvers) ...\<close>: one call per element, in order.\<close>

fun foreach_solver :: "(Solver \<Rightarrow> Notification) \<Rightarrow> Solver list \<Rightarrow> Notification list" where
  "foreach_solver call [] = []"
| "foreach_solver call (solver # rest) = call solver # foreach_solver call rest"

subsection \<open>The base class\<close>

text \<open>
  Modelled from the spec: the constructors \<open>ModelEntity()\<close> and \<open>ModelEntity(name)\<close>
  (ModelEntity.h, not part of the sources) leave the entity with the given name, no solver
  and no assignment ("a Variable is constructed standalone (no solver attached)").
\<close>

definition ModelEntity_ctor :: "string \<Rightarrow> 'a ModelEntity_scheme \<Rightarrow> 'a ModelEntity_scheme" where
  "ModelEntity_ctor n this = this\<lparr>name := n, solvers := [], assignedSolver := None\<rparr>"

text \<open>Modelled from the spec: the property \<open>Assigned\<close> of ModelEntity.\<close>

definition Assigned :: "'a ModelEntity_scheme \<Rightarrow> bool" where
  "Assigned this = (assignedSolver this \<noteq> None)"

text \<open>Modelled from the spec: \<open>ModelEntity::Assign(solver, offset)\<close>.\<close>

definition ModelEntity_Assign :: "Solver \<Rightarrow> int32 \<Rightarrow> 'a ModelEntity_scheme \<Rightarrow> 'a ModelEntity_scheme" where
  "ModelEntity_Assign solver off this = this\<lparr>assignedSolver := Some solver, offset := off\<rparr>"

text \<open>Modelled from the spec: \<open>setName\<close>, the plain store of the base class.\<close>

definition setName :: "string \<Rightarrow> 'a ModelEntity_scheme \<Rightarrow> 'a ModelEntity_scheme" where
  "setName n this = this\<lparr>name := n\<rparr>"

subsection \<open>string_format\<close>

definition digit_char :: "nat \<Rightarrow> char" where
  "digit_char d = ''0123456789'' ! d"

fun show_nat :: "nat \<Rightarrow> string" where
  "show_nat n = (if n < 10 then [digit_char n] else show_nat (n div 10) @ [digit_char (n mod 10)])"

declare show_nat.simps [simp del]

text \<open>
  Modelled from the spec: \<open>string_format\<close> is declared in Utils.h, not part of the
  sources. \<open>%i\<close> writes an \<open>int\<close> in decimal, so that \<open>"Var_%i"\<close> gives \<open>Var_<id>\<close> and
  \<open>"%s_%i"\<close> gives \<open><base>_<index>\<close>.
\<close>

definition show_int32 :: "int32 \<Rightarrow> string" where
  "show_int32 i = (if sint i < 0 then CHR ''-'' # show_nat (nat (- sint i)) else show_nat (nat (sint i)))"

definition string_format_Var :: "int32 \<Rightarrow> string" where
  "string_format_Var i = ''Var_'' @ show_int32 i"

definition string_format_s_i :: "string \<Rightarrow> int32 \<Rightarrow> string" where
  "string_format_s_i varname i = varname @ ''_'' @ show_int32 i"

subsection \<open>Construction (lines 49 to 106)\<close>

text \<open>
  \<open>numberOfVariables\<close> is the static counter of the class; a constructor takes it and
  returns it updated. \<open>this\<close> is the storage the object is built in: the constructor
  writes the fields it names and leaves \<open>value\<close> and \<open>reducedCost\<close> as they were.
\<close>

definition GutsOfConstructor ::
  "string \<Rightarrow> real \<Rightarrow> real \<Rightarrow> VariableType \<Rightarrow> Variable \<Rightarrow> int32 \<Rightarrow> Variable \<times> int32" where
  "GutsOfConstructor n lo up t this numberOfVariables =
     (let this1 = this\<lparr>lower := lo, upper := up, typeV := t, frozen := 0,
                        idV := numberOfVariables\<rparr>;
          counter = numberOfVariables + 1
      in (if n \<noteq> [] then setName n this1 else setName (string_format_Var (idV this1)) this1,
          counter))"

text \<open>
  The four public constructors. A default argument that the caller leaves out is passed
  here by the caller: \<open>0\<close> for the lower bound, \<open>getInfinity U\<close> for the upper bound,
  \<open>Continuous\<close> for the type.
\<close>

definition Variable_type :: "Utils \<Rightarrow> VariableType \<Rightarrow> Variable \<Rightarrow> int32 \<Rightarrow> Variable \<times> int32" where
  "Variable_type U t this c =
     GutsOfConstructor [] 0 (getInfinity U) t (ModelEntity_ctor [] this) c"

definition Variable_bounds ::
  "real \<Rightarrow> real \<Rightarrow> VariableType \<Rightarrow> Variable \<Rightarrow> int32 \<Rightarrow> Variable \<times> int32" where
  "Variable_bounds lo up t this c = GutsOfConstructor [] lo up t (ModelEntity_ctor [] this) c"

definition Variable_name_type ::
  "Utils \<Rightarrow> string \<Rightarrow> VariableType \<Rightarrow> Variable \<Rightarrow> int32 \<Rightarrow> Variable \<times> int32" where
  "Variable_name_type U n t this c =
     GutsOfConstructor n 0 (getInfinity U) t (ModelEntity_ctor n this) c"

definition Variable_name_bounds ::
  "string \<Rightarrow> real \<Rightarrow> real \<Rightarrow> VariableType \<Rightarrow> Variable \<Rightarrow> int32 \<Rightarrow> Variable \<times> int32" where
  "Variable_name_bounds n lo up t this c = GutsOfConstructor n lo up t (ModelEntity_ctor n this) c"

text \<open>One call of a public constructor.\<close>

datatype Construction =
    ByType VariableType
  | ByBounds real real VariableType
  | ByNameType string VariableType
  | ByNameBounds string real real VariableType

fun construct :: "Utils \<Rightarrow> Construction \<Rightarrow> Variable \<Rightarrow> int32 \<Rightarrow> Variable \<times> int32" where
  "construct U (ByType t) this c = Variable_type U t this c"
| "construct U (ByBounds lo up t) this c = Variable_bounds lo up t this c"
| "construct U (ByNameType n t) this c = Variable_name_type U n t this c"
| "construct U (ByNameBounds n lo up t) this c = Variable_name_bounds n lo up t this c"

text \<open>The name a construction is given; empty when the constructor takes none.\<close>

fun supplied_name :: "Construction \<Rightarrow> string" where
  "supplied_name (ByType t) = []"
| "supplied_name (ByBounds lo up t) = []"
| "supplied_name (ByNameType n t) = n"
| "supplied_name (ByNameBounds n lo up t) = n"

text \<open>
  A sequence of constructions, each with the storage it builds in, run in order on the
  counter. The result is the variables in construction order and the counter after them.
\<close>

fun construct_all ::
  "Utils \<Rightarrow> (Construction \<times> Variable) list \<Rightarrow> int32 \<Rightarrow> Variable list \<times> int32" where
  "construct_all U [] c = ([], c)"
| "construct_all U ((k, this) # rest) c =
     (case construct U k this c of
        (v, c1) \<Rightarrow> (case construct_all U rest c1 of (vs, c2) \<Rightarrow> (v # vs, c2)))"

text \<open>\<open>int Variable::numberOfVariables = 0;\<close> (line 675)\<close>

definition numberOfVariables_initial :: int32 where
  "numberOfVariables_initial = 0"

subsection \<open>Bounds, type and name (lines 225 to 284)\<close>

definition getUpper :: "Variable \<Rightarrow> real" where
  "getUpper this = upper this"

definition setUpper :: "Utils \<Rightarrow> real \<Rightarrow> Variable \<Rightarrow> Variable \<times> Notification list" where
  "setUpper U v this =
     (if CompareToEps U (upper this) v \<noteq> 0
      then (let this1 = this\<lparr>upper := v\<rparr>
            in (this1, foreach_solver (\<lambda>solver. SetVariableUpper solver (idV this1) (upper this1))
                         (solvers this1)))
      else (this, []))"

definition Lower_get :: "Variable \<Rightarrow> real" where
  "Lower_get this = lower this"

definition Lower_set :: "Utils \<Rightarrow> real \<Rightarrow> Variable \<Rightarrow> Variable \<times> Notification list" where
  "Lower_set U v this =
     (if CompareToEps U (lower this) v \<noteq> 0
      then (let this1 = this\<lparr>lower := v\<rparr>
            in (this1, foreach_solver (\<lambda>solver. SetVariableLower solver (idV this1) (lower this1))
                         (solvers this1)))
      else (this, []))"

definition Type_get :: "Variable \<Rightarrow> VariableType" where
  "Type_get this = typeV this"

definition Type_set :: "VariableType \<Rightarrow> Variable \<Rightarrow> Variable \<times> Notification list" where
  "Type_set v this =
     (if typeV this \<noteq> v
      then (let this1 = this\<lparr>typeV := v\<rparr>
            in (this1, foreach_solver (\<lambda>solver. SetVariableType solver (idV this1) (typeV this1))
                         (solvers this1)))
      else (this, []))"

text \<open>\<open>base.Name = value\<close> is the store of the base class.\<close>

definition Name_set :: "string \<Rightarrow> Variable \<Rightarrow> Variable \<times> Notification list" where
  "Name_set v this =
     (if \<not> (name this = v)
      then (let this1 = setName v this
            in (this1, foreach_solver (\<lambda>solver. SetVariableName solver (idV this1) (name this1))
                         (solvers this1)))
      else (this, []))"

subsection \<open>The solution value (lines 345 to 399)\<close>

text \<open>
  The getter of \<open>Value\<close>. \<open>DEBUG\<close> says whether the build defines the symbol of that
  name: the check of \<open>Assigned\<close> is compiled only then.
\<close>

definition Value_get :: "bool \<Rightarrow> Variable \<Rightarrow> SonnetException + real" where
  "Value_get DEBUG this =
     (if DEBUG \<and> \<not> Assigned this
      then Inl (SonnetException ''Variable has no assigned model!'')
      else Inr (valueV this))"

definition Value_set :: "real \<Rightarrow> Variable \<Rightarrow> Variable" where
  "Value_set v this = this\<lparr>valueV := v\<rparr>"

definition ReducedCost :: "Variable \<Rightarrow> real" where
  "ReducedCost this = reducedCost this"

definition IsFeasible :: "Utils \<Rightarrow> Variable \<Rightarrow> bool" where
  "IsFeasible U this =
     (if \<not> IsBetween U (valueV this) (lower this) (upper this) then False
      else if typeV this = Integer \<and> \<not> IsInteger U (valueV this) then False
      else True)"

definition Assign :: "Solver \<Rightarrow> int32 \<Rightarrow> real \<Rightarrow> real \<Rightarrow> Variable \<Rightarrow> Variable" where
  "Assign solver off v rc this =
     (ModelEntity_Assign solver off this)\<lparr>valueV := v, reducedCost := rc\<rparr>"

subsection \<open>Freezing (lines 289 to 340)\<close>

definition IsFrozen :: "Variable \<Rightarrow> bool" where
  "IsFrozen this = (0 <s frozen this)"

text \<open>
  A call that can throw returns three things: the exception or the returned value, the
  object as the call left it, and the calls made on the solvers.
\<close>

definition Freeze :: "bool \<Rightarrow> Variable \<Rightarrow> (SonnetException + bool) \<times> Variable \<times> Notification list" where
  "Freeze DEBUG this =
     (let this1 = this\<lparr>frozen := frozen this + 1\<rparr>
      in if frozen this1 = 1
         then (case Value_get DEBUG this1 of
                 Inl e \<Rightarrow> (Inl e, this1, [])
               | Inr v \<Rightarrow>
                   (Inr True, this1,
                    foreach_solver (\<lambda>solver. SetVariableBounds solver (idV this1) v v)
                      (solvers this1)))
         else (Inr False, this1, []))"

definition UnFreeze :: "Variable \<Rightarrow> bool \<times> Variable \<times> Notification list" where
  "UnFreeze this =
     (if 0 <s frozen this
      then (let this1 = this\<lparr>frozen := frozen this - 1\<rparr>
            in if frozen this1 = 0
               then (True, this1,
                     foreach_solver
                       (\<lambda>solver. SetVariableBounds solver (idV this1) (Lower_get this1) (getUpper this1))
                       (solvers this1))
               else (False, this1, []))
      else (False, this, []))"

subsection \<open>Calls on one variable\<close>

text \<open>
  The members of the class that act on an existing variable and that are not operators:
  the accessors, the two freeze calls, the feasibility test and \<open>Assign\<close>. \<open>ToString\<close>
  and \<open>ToLevelString\<close> format the fields and store nothing; they are left out.
\<close>

datatype Call =
    Call_getUpper
  | Call_setUpper real
  | Call_Lower_get
  | Call_Lower_set real
  | Call_Type_get
  | Call_Type_set VariableType
  | Call_Name_set string
  | Call_IsFrozen
  | Call_Freeze
  | Call_UnFreeze
  | Call_Value_get
  | Call_Value_set real
  | Call_ReducedCost
  | Call_IsFeasible
  | Call_Assign Solver int32 real real

datatype Returned = Void | Bool bool | Double real | Type VariableType

fun exec ::
  "Utils \<Rightarrow> bool \<Rightarrow> Call \<Rightarrow> Variable \<Rightarrow> (SonnetException + Returned) \<times> Variable \<times> Notification list" where
  "exec U DEBUG Call_getUpper this = (Inr (Double (getUpper this)), this, [])"
| "exec U DEBUG (Call_setUpper v) this = (case setUpper U v this of (this1, ns) \<Rightarrow> (Inr Void, this1, ns))"
| "exec U DEBUG Call_Lower_get this = (Inr (Double (Lower_get this)), this, [])"
| "exec U DEBUG (Call_Lower_set v) this = (case Lower_set U v this of (this1, ns) \<Rightarrow> (Inr Void, this1, ns))"
| "exec U DEBUG Call_Type_get this = (Inr (Type (Type_get this)), this, [])"
| "exec U DEBUG (Call_Type_set v) this = (case Type_set v this of (this1, ns) \<Rightarrow> (Inr Void, this1, ns))"
| "exec U DEBUG (Call_Name_set v) this = (case Name_set v this of (this1, ns) \<Rightarrow> (Inr Void, this1, ns))"
| "exec U DEBUG Call_IsFrozen this = (Inr (Bool (IsFrozen this)), this, [])"
| "exec U DEBUG Call_Freeze this =
     (case Freeze DEBUG this of (r, this1, ns) \<Rightarrow> (map_sum (\<lambda>e. e) Bool r, this1, ns))"
| "exec U DEBUG Call_UnFreeze this = (case UnFreeze this of (b, this1, ns) \<Rightarrow> (Inr (Bool b), this1, ns))"
| "exec U DEBUG Call_Value_get this = (map_sum (\<lambda>e. e) Double (Value_get DEBUG this), this, [])"
| "exec U DEBUG (Call_Value_set v) this = (Inr Void, Value_set v this, [])"
| "exec U DEBUG Call_ReducedCost this = (Inr (Double (ReducedCost this)), this, [])"
| "exec U DEBUG Call_IsFeasible this = (Inr (Bool (IsFeasible U this)), this, [])"
| "exec U DEBUG (Call_Assign solver off v rc) this = (Inr Void, Assign solver off v rc this, [])"

text \<open>
  A sequence of calls by one caller. An exception ends it: the result is the exception
  if one was thrown, the object as the calls left it, and every call made on the solvers.
\<close>

fun run ::
  "Utils \<Rightarrow> bool \<Rightarrow> Call list \<Rightarrow> Variable \<Rightarrow> SonnetException option \<times> Variable \<times> Notification list" where
  "run U DEBUG [] this = (None, this, [])"
| "run U DEBUG (c # cs) this =
     (case exec U DEBUG c this of
        (Inl e, this1, ns) \<Rightarrow> (Some e, this1, ns)
      | (Inr r, this1, ns) \<Rightarrow>
          (case run U DEBUG cs this1 of (e, this2, ns2) \<Rightarrow> (e, this2, ns @ ns2)))"

fun is_Assign :: "Call \<Rightarrow> bool" where
  "is_Assign (Call_Assign solver off v rc) = True"
| "is_Assign _ = False"

fun is_Value_set :: "Call \<Rightarrow> bool" where
  "is_Value_set (Call_Value_set v) = True"
| "is_Value_set _ = False"

subsection \<open>The factories (lines 121 to 193)\<close>

text \<open>
  \<open>heap j\<close> is the storage that the \<open>j\<close>-th \<open>new Variable(...)\<close> of a factory call builds
  in. A negative length makes \<open>new Variable*[n]\<close> throw.
\<close>

datatype FactoryException = bad_array_new_length | ArgumentException string

text \<open>\<open>for (int i = 0; i < n; i++)\<close> of \<open>New(int n, ...)\<close>, started at \<open>i\<close>.\<close>

function New_loop ::
  "(nat \<Rightarrow> Variable) \<Rightarrow> string \<Rightarrow> real \<Rightarrow> real \<Rightarrow> VariableType \<Rightarrow> int32 \<Rightarrow> int32 \<Rightarrow> int32
     \<Rightarrow> Variable list \<times> int32" where
  "New_loop heap varname lo up t n i c =
     (if i <s n
      then (let nm = (if varname \<noteq> [] then string_format_s_i varname i else [])
            in case Variable_name_bounds nm lo up t (heap (unat i)) c of
                 (v, c1) \<Rightarrow>
                   (case New_loop heap varname lo up t n (i + 1) c1 of
                      (vs, c2) \<Rightarrow> (v # vs, c2)))
      else ([], c))"
  by pat_completeness auto
termination
proof (relation "measure (\<lambda>(heap, varname, lo, up, t, n, i, c). nat (sint n - sint i))")
  show "wf (measure (\<lambda>(heap, varname, lo, up, t, n, i, c). nat (sint n - sint i)))"
    by simp
next
  fix heap :: "nat \<Rightarrow> Variable" and varname :: string and lo up :: real
    and t :: VariableType and n i c y :: int32
  assume "i <s n"
  then have below: "sint i < sint n"
    by (simp add: word_sless_alt)
  have "sint n < 2 ^ 31"
    using sint_lt [of n] by simp
  with below have "sint i + 1 < 2 ^ 31"
    by simp
  moreover have "- (2 ^ 31) \<le> sint i"
    using sint_ge [of i] by simp
  ultimately have "sint (i + 1) = sint i + 1"
    by (simp add: sint_word_ariths signed_take_bit_int_eq_self)
  with below
  show "((heap, varname, lo, up, t, n, i + 1, y), heap, varname, lo, up, t, n, i, c)
      \<in> measure (\<lambda>(heap, varname, lo, up, t, n, i, c). nat (sint n - sint i))"
    by simp
qed

declare New_loop.simps [simp del]

definition New_n ::
  "(nat \<Rightarrow> Variable) \<Rightarrow> int32 \<Rightarrow> string \<Rightarrow> real \<Rightarrow> real \<Rightarrow> VariableType \<Rightarrow> int32
     \<Rightarrow> FactoryException + Variable list \<times> int32" where
  "New_n heap n varname lo up t c =
     (if n <s 0 then Inl bad_array_new_length
      else Inr (New_loop heap varname lo up t n 0 c))"

text \<open>
  \<open>New(const list<T> &set, ...)\<close> (lines 150 to 162) has no definition here. Its loop
  compares two list iterators with \<open><\<close> (line 154), which a list iterator does not
  have, and its body indexes \<open>tmp\<close>, a pointer to the map, with \<open>*i\<close> (line 159): the
  template has no instantiation, and no call of it runs.
\<close>

text \<open>
  \<open>New<T>(varname, ...)\<close> over an enumerated type. \<open>IsEnum\<close> is \<open>typeof(T).IsEnum\<close>,
  \<open>GetValues\<close> is \<open>Enum.GetValues(typeof(T))\<close> and \<open>to_int\<close> is the integer that \<open>%i\<close>
  writes for a value of the type. The loop variable \<open>i\<close> is the element, and \<open>tmp\<close> is the
  dictionary itself.
\<close>

fun New_enum_loop ::
  "('k \<Rightarrow> int32) \<Rightarrow> (nat \<Rightarrow> Variable) \<Rightarrow> string \<Rightarrow> real \<Rightarrow> real \<Rightarrow> VariableType
     \<Rightarrow> 'k list \<Rightarrow> nat \<Rightarrow> ('k \<rightharpoonup> Variable) \<Rightarrow> int32 \<Rightarrow> ('k \<rightharpoonup> Variable) \<times> int32" where
  "New_enum_loop to_int heap varname lo up t [] j tmp c = (tmp, c)"
| "New_enum_loop to_int heap varname lo up t (i # rest) j tmp c =
     (let nm = (if varname \<noteq> [] then string_format_s_i varname (to_int i) else [])
      in case Variable_name_bounds nm lo up t (heap j) c of
           (v, c1) \<Rightarrow> New_enum_loop to_int heap varname lo up t rest (Suc j) (tmp(i \<mapsto> v)) c1)"

definition New_enum ::
  "bool \<Rightarrow> 'k list \<Rightarrow> ('k \<Rightarrow> int32) \<Rightarrow> (nat \<Rightarrow> Variable) \<Rightarrow> string \<Rightarrow> real \<Rightarrow> real \<Rightarrow> VariableType
     \<Rightarrow> int32 \<Rightarrow> FactoryException + ('k \<rightharpoonup> Variable) \<times> int32" where
  "New_enum IsEnum GetValues to_int heap varname lo up t c =
     (if \<not> IsEnum then Inl (ArgumentException ''T must be an enumerated type'')
      else Inr (New_enum_loop to_int heap varname lo up t GetValues 0 Map.empty c))"

subsection \<open>Operators == and != (lines 472 to 538)\<close>

text \<open>
  Expression.h and Constraint.h are not part of the sources. \<open>Expression_of x\<close> is
  \<open>new Expression(x)\<close>, and the other three fields are the overloads of \<open>==\<close> that take
  an expression. \<open>'e\<close> is the class Expression, \<open>'c\<close> the class Constraint.
\<close>

record ('e, 'c) ExpressionOps =
  Expression_of :: "Variable \<Rightarrow> 'e"
  eq_double_Expression :: "real \<Rightarrow> 'e \<Rightarrow> 'c"
  eq_Expression_double :: "'e \<Rightarrow> real \<Rightarrow> 'c"
  eq_Expression_Expression :: "'e \<Rightarrow> 'e \<Rightarrow> 'c"

definition op_eq_double_Variable ::
  "('e, 'c) ExpressionOps \<Rightarrow> real \<Rightarrow> Variable \<Rightarrow> SonnetException + 'c" where
  "op_eq_double_Variable E c x = Inr (eq_double_Expression E c (Expression_of E x))"

definition op_ne_double_Variable ::
  "('e, 'c) ExpressionOps \<Rightarrow> real \<Rightarrow> Variable \<Rightarrow> SonnetException + 'c" where
  "op_ne_double_Variable E c x = Inl (SonnetException ''Cannot use != operator'')"

definition op_eq_Variable_double ::
  "('e, 'c) ExpressionOps \<Rightarrow> Variable \<Rightarrow> real \<Rightarrow> SonnetException + 'c" where
  "op_eq_Variable_double E x c = Inr (eq_Expression_double E (Expression_of E x) c)"

definition op_ne_Variable_double ::
  "('e, 'c) ExpressionOps \<Rightarrow> Variable \<Rightarrow> real \<Rightarrow> SonnetException + 'c" where
  "op_ne_Variable_double E x c = Inl (SonnetException ''Cannot use != operator'')"

definition op_eq_Variable_Variable ::
  "('e, 'c) ExpressionOps \<Rightarrow> Variable \<Rightarrow> Variable \<Rightarrow> SonnetException + 'c" where
  "op_eq_Variable_Variable E x y =
     Inr (eq_Expression_Expression E (Expression_of E x) (Expression_of E y))"

definition op_ne_Variable_Variable ::
  "('e, 'c) ExpressionOps \<Rightarrow> Variable \<Rightarrow> Variable \<Rightarrow> SonnetException + 'c" where
  "op_ne_Variable_Variable E x y = Inl (SonnetException ''Cannot use != operator'')"

subsection \<open>An environment for examples\<close>

text \<open>
  Modelled from the spec: an instance of the helpers of Utils.h (not part of the sources)
  to run the model on examples. The comparisons are "tolerance-aware": two doubles within
  \<open>tolerance\<close> of each other compare equal, a value may leave its bounds by \<open>tolerance\<close>,
  and a value within \<open>tolerance\<close> of a whole number is integral.
\<close>

definition tolerance :: real where
  "tolerance = 1 / 100000"

definition example_Utils :: Utils where
  "example_Utils =
     \<lparr>getInfinity = 10 ^ 30,
      CompareToEps = (\<lambda>a b. if a - b < - tolerance then - 1 else if tolerance < a - b then 1 else 0),
      IsBetween = (\<lambda>v l u. l - tolerance \<le> v \<and> v \<le> u + tolerance),
      IsInteger = (\<lambda>v. \<bar>v - of_int \<lfloor>v + 1 / 2\<rfloor>\<bar> \<le> tolerance)\<rparr>"

text \<open>Storage before a constructor has run: every field holds what was there.\<close>

definition example_storage :: Variable where
  "example_storage =
     \<lparr>idV = 77, name = ''?'', solvers = [9], assignedSolver = Some 9, offset = 5,
      frozen = 3, valueV = 4, reducedCost = 2, upper = 1, lower = 8, typeV = Integer\<rparr>"

text \<open>
  A variable as \<open>Variable x(0.0, 10.0, Continuous)\<close> builds it first in a process, then
  attached to the solvers 1 and 2.
\<close>

definition example_Variable :: Variable where
  "example_Variable =
     (fst (Variable_bounds 0 10 Continuous example_storage numberOfVariables_initial))
       \<lparr>solvers := [1, 2]\<rparr>"

text \<open>
  The example variable after solver 1 has solved: it holds the value 3 and the reduced
  cost 0 and sits at offset 0 of the solver.
\<close>

definition example_assigned :: Variable where
  "example_assigned = Assign 1 0 3 0 example_Variable"

text \<open>Three constructions in a row: by type, by name and bounds, by bounds.\<close>

definition example_constructions :: "(Construction \<times> Variable) list" where
  "example_constructions =
     [(ByType Integer, example_storage),
      (ByNameBounds ''x'' 0 1 Continuous, example_storage),
      (ByBounds 0 10 Continuous, example_storage)]"

section \<open>Properties\<close>

subsection \<open>Notifications\<close>

lemma foreach_solver_eq_map: "foreach_solver call ss = map call ss"
  by (induction ss) simp_all

lemma received_map:
  assumes "\<And>s'. receiver (call s') = s'"
  shows "received s (map call ss) = map call (filter (\<lambda>s'. s' = s) ss)"
  using assms by (induction ss) (simp_all add: received_def)

lemma filter_eq_distinct:
  "distinct ss \<Longrightarrow> filter (\<lambda>s'. s' = s) ss = (if s \<in> set ss then [s] else [])"
  by (induction ss) auto

lemma received_once:
  assumes "\<And>s'. receiver (call s') = s'" and "distinct ss"
  shows "received s (map call ss) = (if s \<in> set ss then [call s] else [])"
  by (simp add: received_map [OF assms(1)] filter_eq_distinct [OF assms(2)])

subsection \<open>The examples, evaluated\<close>

lemma example_Variable_eq:
  "example_Variable =
     \<lparr>idV = 0, name = ''Var_0'', solvers = [1, 2], assignedSolver = None, offset = 5,
      frozen = 0, valueV = 4, reducedCost = 2, upper = 10, lower = 0, typeV = Continuous\<rparr>"
  by (simp add: example_Variable_def Variable_bounds_def GutsOfConstructor_def Let_def
      ModelEntity_ctor_def setName_def example_storage_def numberOfVariables_initial_def
      string_format_Var_def show_int32_def show_nat.simps digit_char_def)

lemma example_assigned_eq:
  "example_assigned =
     \<lparr>idV = 0, name = ''Var_0'', solvers = [1, 2], assignedSolver = Some 1, offset = 0,
      frozen = 0, valueV = 3, reducedCost = 0, upper = 10, lower = 0, typeV = Continuous\<rparr>"
  by (simp add: example_assigned_def example_Variable_eq Assign_def ModelEntity_Assign_def)

lemma example_CompareToEps:
  "CompareToEps example_Utils a b =
     (if a - b < - (1 / 100000) then - 1 else if 1 / 100000 < a - b then 1 else 0)"
  by (simp add: example_Utils_def tolerance_def)

lemma example_IsBetween:
  "IsBetween example_Utils v l u = (l - 1 / 100000 \<le> v \<and> v \<le> u + 1 / 100000)"
  by (simp add: example_Utils_def tolerance_def)

lemma example_IsInteger:
  "IsInteger example_Utils v = (\<bar>v - of_int \<lfloor>v + 1 / 2\<rfloor>\<bar> \<le> 1 / 100000)"
  by (simp add: example_Utils_def tolerance_def)

lemma example_fresh_eq:
  "fst (Variable_bounds 0 10 Continuous example_storage numberOfVariables_initial) =
     \<lparr>idV = 0, name = ''Var_0'', solvers = [], assignedSolver = None, offset = 5,
      frozen = 0, valueV = 4, reducedCost = 2, upper = 10, lower = 0, typeV = Continuous\<rparr>"
  by (simp add: Variable_bounds_def GutsOfConstructor_def Let_def
      ModelEntity_ctor_def setName_def example_storage_def numberOfVariables_initial_def
      string_format_Var_def show_int32_def show_nat.simps digit_char_def)

subsection \<open>The setters\<close>

lemma setUpper_same: "CompareToEps U (upper x) v = 0 \<Longrightarrow> setUpper U v x = (x, [])"
  by (simp add: setUpper_def)

lemma setUpper_changed:
  "CompareToEps U (upper x) v \<noteq> 0 \<Longrightarrow>
     setUpper U v x = (x\<lparr>upper := v\<rparr>, map (\<lambda>s. SetVariableUpper s (idV x) v) (solvers x))"
  by (simp add: setUpper_def Let_def foreach_solver_eq_map)

lemma Lower_set_same: "CompareToEps U (lower x) v = 0 \<Longrightarrow> Lower_set U v x = (x, [])"
  by (simp add: Lower_set_def)

lemma Lower_set_changed:
  "CompareToEps U (lower x) v \<noteq> 0 \<Longrightarrow>
     Lower_set U v x = (x\<lparr>lower := v\<rparr>, map (\<lambda>s. SetVariableLower s (idV x) v) (solvers x))"
  by (simp add: Lower_set_def Let_def foreach_solver_eq_map)

lemma Type_set_same: "typeV x = t \<Longrightarrow> Type_set t x = (x, [])"
  by (simp add: Type_set_def)

lemma Type_set_changed:
  "typeV x \<noteq> t \<Longrightarrow>
     Type_set t x = (x\<lparr>typeV := t\<rparr>, map (\<lambda>s. SetVariableType s (idV x) t) (solvers x))"
  by (simp add: Type_set_def Let_def foreach_solver_eq_map)

lemma Name_set_same: "name x = n \<Longrightarrow> Name_set n x = (x, [])"
  by (simp add: Name_set_def)

lemma Name_set_changed:
  "name x \<noteq> n \<Longrightarrow>
     Name_set n x = (x\<lparr>name := n\<rparr>, map (\<lambda>s. SetVariableName s (idV x) n) (solvers x))"
  by (simp add: Name_set_def Let_def setName_def foreach_solver_eq_map)

text \<open>
  C1. Each of \<open>setUpper\<close>, the setter of \<open>Lower\<close>, the setter of \<open>Type\<close> and the setter of
  \<open>Name\<close> follows one pattern. When the new value equals the current one (for the two
  bounds: when \<open>CompareToEps\<close> returns 0, whatever the exact values are) the object is
  unchanged and no solver is called, and setting the same value again does nothing more.
  When the value differs, the field is updated and then the solvers are called in the
  order of \<open>solvers\<close>, each call carrying the variable and the updated value; when
  \<open>solvers\<close> holds every solver once, every attached solver receives exactly one call
  and every other solver none.
\<close>

theorem setters_propagate:
  "(CompareToEps U (upper x) v = 0 \<longrightarrow> setUpper U v x = (x, []))
   \<and> (CompareToEps U (upper x) v \<noteq> 0 \<longrightarrow>
        setUpper U v x = (x\<lparr>upper := v\<rparr>, map (\<lambda>s. SetVariableUpper s (idV x) v) (solvers x))
        \<and> (distinct (solvers x) \<longrightarrow>
             (\<forall>s. received s (snd (setUpper U v x)) =
                    (if s \<in> set (solvers x) then [SetVariableUpper s (idV x) v] else []))))
   \<and> (CompareToEps U v v = 0 \<longrightarrow>
        setUpper U v (fst (setUpper U v x)) = (fst (setUpper U v x), []))
   \<and> (CompareToEps U (lower x) v = 0 \<longrightarrow> Lower_set U v x = (x, []))
   \<and> (CompareToEps U (lower x) v \<noteq> 0 \<longrightarrow>
        Lower_set U v x = (x\<lparr>lower := v\<rparr>, map (\<lambda>s. SetVariableLower s (idV x) v) (solvers x))
        \<and> (distinct (solvers x) \<longrightarrow>
             (\<forall>s. received s (snd (Lower_set U v x)) =
                    (if s \<in> set (solvers x) then [SetVariableLower s (idV x) v] else []))))
   \<and> (CompareToEps U v v = 0 \<longrightarrow>
        Lower_set U v (fst (Lower_set U v x)) = (fst (Lower_set U v x), []))
   \<and> (typeV x = t \<longrightarrow> Type_set t x = (x, []))
   \<and> (typeV x \<noteq> t \<longrightarrow>
        Type_set t x = (x\<lparr>typeV := t\<rparr>, map (\<lambda>s. SetVariableType s (idV x) t) (solvers x))
        \<and> (distinct (solvers x) \<longrightarrow>
             (\<forall>s. received s (snd (Type_set t x)) =
                    (if s \<in> set (solvers x) then [SetVariableType s (idV x) t] else []))))
   \<and> Type_set t (fst (Type_set t x)) = (fst (Type_set t x), [])
   \<and> (name x = n \<longrightarrow> Name_set n x = (x, []))
   \<and> (name x \<noteq> n \<longrightarrow>
        Name_set n x = (x\<lparr>name := n\<rparr>, map (\<lambda>s. SetVariableName s (idV x) n) (solvers x))
        \<and> (distinct (solvers x) \<longrightarrow>
             (\<forall>s. received s (snd (Name_set n x)) =
                    (if s \<in> set (solvers x) then [SetVariableName s (idV x) n] else []))))
   \<and> Name_set n (fst (Name_set n x)) = (fst (Name_set n x), [])"
proof -
  have up_again: "setUpper U v (fst (setUpper U v x)) = (fst (setUpper U v x), [])"
    if "CompareToEps U v v = 0"
  proof (cases "CompareToEps U (upper x) v = 0")
    case True
    then show ?thesis by (simp add: setUpper_same)
  next
    case False
    with that show ?thesis by (simp add: setUpper_changed setUpper_same)
  qed
  have lo_again: "Lower_set U v (fst (Lower_set U v x)) = (fst (Lower_set U v x), [])"
    if "CompareToEps U v v = 0"
  proof (cases "CompareToEps U (lower x) v = 0")
    case True
    then show ?thesis by (simp add: Lower_set_same)
  next
    case False
    with that show ?thesis by (simp add: Lower_set_changed Lower_set_same)
  qed
  have ty_again: "Type_set t (fst (Type_set t x)) = (fst (Type_set t x), [])"
    by (cases "typeV x = t") (simp_all add: Type_set_same Type_set_changed)
  have nm_again: "Name_set n (fst (Name_set n x)) = (fst (Name_set n x), [])"
    by (cases "name x = n") (simp_all add: Name_set_same Name_set_changed)
  show ?thesis
    using up_again lo_again ty_again nm_again
    by (simp add: setUpper_same setUpper_changed Lower_set_same Lower_set_changed
        Type_set_same Type_set_changed Name_set_same Name_set_changed received_once)
qed

text \<open>
  The pattern on the example variable: \<open>setUpper 5\<close> changes the bound 10 and tells both
  solvers; a further \<open>setUpper\<close> within the tolerance of 5 is no change, although the
  doubles differ; setting the lower bound, the type and the name follow the same rule.
\<close>

theorem setters_propagate_witness:
  "CompareToEps example_Utils (upper example_Variable) 5 \<noteq> 0
   \<and> distinct (solvers example_Variable)
   \<and> setUpper example_Utils 5 example_Variable =
       (example_Variable\<lparr>upper := 5\<rparr>, [SetVariableUpper 1 0 5, SetVariableUpper 2 0 5])
   \<and> received 2 (snd (setUpper example_Utils 5 example_Variable)) = [SetVariableUpper 2 0 5]
   \<and> CompareToEps example_Utils (upper (example_Variable\<lparr>upper := 5\<rparr>)) (5 + 1 / 1000000) = 0
   \<and> setUpper example_Utils (5 + 1 / 1000000) (example_Variable\<lparr>upper := 5\<rparr>) =
       (example_Variable\<lparr>upper := 5\<rparr>, [])
   \<and> CompareToEps example_Utils (lower example_Variable) 0 = 0
   \<and> Lower_set example_Utils 0 example_Variable = (example_Variable, [])
   \<and> typeV example_Variable \<noteq> Integer
   \<and> Type_set Integer example_Variable =
       (example_Variable\<lparr>typeV := Integer\<rparr>, [SetVariableType 1 0 Integer, SetVariableType 2 0 Integer])
   \<and> name example_Variable = ''Var_0''
   \<and> Name_set ''Var_0'' example_Variable = (example_Variable, [])"
  using setters_propagate [of example_Utils example_Variable 5 Integer "''Var_0''"]
    setters_propagate [of example_Utils "example_Variable\<lparr>upper := 5\<rparr>" "5 + 1 / 1000000" Integer "''Var_0''"]
    setters_propagate [of example_Utils example_Variable 0 Integer "''Var_0''"]
  by (simp add: example_Variable_eq example_CompareToEps received_def)

subsection \<open>Feasibility\<close>

text \<open>
  C7. \<open>IsFeasible()\<close> returns true if and only if \<open>value.IsBetween(lower, upper)\<close> holds
  and, when the type is Integer, \<open>value.IsInteger()\<close> holds too. In particular it returns
  false for a Continuous variable whose value is not between its bounds, and false for an
  Integer variable whose value is between its bounds and not integral. Both tests are
  those of Utils.h, whatever tolerance they apply.
\<close>

theorem IsFeasible_iff:
  "IsFeasible U x =
     (IsBetween U (valueV x) (lower x) (upper x)
      \<and> (typeV x = Integer \<longrightarrow> IsInteger U (valueV x)))
   \<and> (typeV x = Continuous \<longrightarrow> \<not> IsBetween U (valueV x) (lower x) (upper x) \<longrightarrow>
        \<not> IsFeasible U x)
   \<and> (typeV x = Integer \<longrightarrow> IsBetween U (valueV x) (lower x) (upper x) \<longrightarrow>
        \<not> IsInteger U (valueV x) \<longrightarrow> \<not> IsFeasible U x)"
  by (simp add: IsFeasible_def)

text \<open>
  With the tolerance of the example environment and the bounds 0 and 10: the values 4 and
  10.000001 are feasible, 11 is not; as an Integer variable, 2.5 is not feasible and 3 is.
\<close>

theorem IsFeasible_iff_witness:
  "IsFeasible example_Utils (example_Variable\<lparr>valueV := 4\<rparr>)
   \<and> IsFeasible example_Utils (example_Variable\<lparr>valueV := 10 + 1 / 1000000\<rparr>)
   \<and> typeV (example_Variable\<lparr>valueV := 11\<rparr>) = Continuous
   \<and> \<not> IsBetween example_Utils 11 (lower example_Variable) (upper example_Variable)
   \<and> \<not> IsFeasible example_Utils (example_Variable\<lparr>valueV := 11\<rparr>)
   \<and> typeV (example_Variable\<lparr>valueV := 5 / 2, typeV := Integer\<rparr>) = Integer
   \<and> IsBetween example_Utils (5 / 2) (lower example_Variable) (upper example_Variable)
   \<and> \<not> IsInteger example_Utils (5 / 2)
   \<and> \<not> IsFeasible example_Utils (example_Variable\<lparr>valueV := 5 / 2, typeV := Integer\<rparr>)
   \<and> IsFeasible example_Utils (example_Variable\<lparr>valueV := 3, typeV := Integer\<rparr>)"
  using IsFeasible_iff [of example_Utils "example_Variable\<lparr>valueV := 4\<rparr>"]
    IsFeasible_iff [of example_Utils "example_Variable\<lparr>valueV := 10 + 1 / 1000000\<rparr>"]
    IsFeasible_iff [of example_Utils "example_Variable\<lparr>valueV := 11\<rparr>"]
    IsFeasible_iff [of example_Utils "example_Variable\<lparr>valueV := 5 / 2, typeV := Integer\<rparr>"]
    IsFeasible_iff [of example_Utils "example_Variable\<lparr>valueV := 3, typeV := Integer\<rparr>"]
  by (simp add: example_Variable_eq example_IsBetween example_IsInteger)

subsection \<open>The operators == and !=\<close>

text \<open>
  C10. Each of the three \<open>!=\<close> operators (constant and variable, variable and constant,
  two variables) throws a SonnetException with a message of its own and builds no
  constraint, for every argument. Each of the three \<open>==\<close> operators returns the
  constraint that the \<open>==\<close> of Expression builds from the wrapped variables: an object of
  the class Constraint, not a truth value.
\<close>

theorem not_equal_throws:
  "op_ne_double_Variable E c x = Inl (SonnetException ''Cannot use != operator'')
   \<and> op_ne_Variable_double E x c = Inl (SonnetException ''Cannot use != operator'')
   \<and> op_ne_Variable_Variable E x y = Inl (SonnetException ''Cannot use != operator'')
   \<and> op_eq_double_Variable E c x = Inr (eq_double_Expression E c (Expression_of E x))
   \<and> op_eq_Variable_double E x c = Inr (eq_Expression_double E (Expression_of E x) c)
   \<and> op_eq_Variable_Variable E x y =
       Inr (eq_Expression_Expression E (Expression_of E x) (Expression_of E y))
   \<and> SonnetException ''Cannot use != operator'' \<noteq> SonnetException ''Variable has no assigned model!''"
  by (simp add: op_ne_double_Variable_def op_ne_Variable_double_def op_ne_Variable_Variable_def
      op_eq_double_Variable_def op_eq_Variable_double_def op_eq_Variable_Variable_def)

subsection \<open>Calls and the fields they leave alone\<close>

lemmas call_defs =
  setUpper_def Lower_set_def Type_set_def Name_set_def setName_def Freeze_def UnFreeze_def
  Value_get_def Value_set_def Assign_def ModelEntity_Assign_def Let_def

lemma exec_assignedSolver:
  "\<not> is_Assign c \<Longrightarrow> assignedSolver (fst (snd (exec U D c x))) = assignedSolver x"
  by (cases c) (simp_all add: call_defs split: sum.splits)

lemma exec_reducedCost:
  "\<not> is_Assign c \<Longrightarrow> reducedCost (fst (snd (exec U D c x))) = reducedCost x"
  by (cases c) (simp_all add: call_defs split: sum.splits)

lemma exec_valueV:
  "\<not> is_Assign c \<Longrightarrow> \<not> is_Value_set c \<Longrightarrow> valueV (fst (snd (exec U D c x))) = valueV x"
  by (cases c) (simp_all add: call_defs split: sum.splits)

lemma run_assignedSolver:
  "\<forall>c\<in>set cs. \<not> is_Assign c \<Longrightarrow> assignedSolver (fst (snd (run U D cs x))) = assignedSolver x"
proof (induction cs arbitrary: x)
  case Nil
  then show ?case by simp
next
  case (Cons c cs)
  obtain r x1 ns where step: "exec U D c x = (r, x1, ns)"
    by (cases "exec U D c x") auto
  from Cons.prems have "\<not> is_Assign c"
    by simp
  then have same: "assignedSolver x1 = assignedSolver x"
    using exec_assignedSolver [of c U D x] step by simp
  show ?case
  proof (cases r)
    case (Inl e)
    with step same show ?thesis by simp
  next
    case (Inr v)
    from Cons.prems have "\<forall>c\<in>set cs. \<not> is_Assign c"
      by simp
    then have "assignedSolver (fst (snd (run U D cs x1))) = assignedSolver x1"
      by (rule Cons.IH)
    with step same Inr show ?thesis
      by (auto split: prod.splits)
  qed
qed

lemma construct_unassigned: "assignedSolver (fst (construct U k this n)) = None"
  by (cases k)
    (simp_all add: Variable_type_def Variable_bounds_def Variable_name_type_def
      Variable_name_bounds_def GutsOfConstructor_def ModelEntity_ctor_def setName_def Let_def)

subsection \<open>Reading the value\<close>

text \<open>
  C6. In a build with DEBUG, reading \<open>Value\<close> of a variable that is not assigned throws
  the SonnetException "Variable has no assigned model!" and returns no number; an assigned
  variable returns its value. A variable that a public constructor built and on which any
  calls but \<open>Assign\<close> were made since is in that state: no solver has assigned it, and the
  read throws.
\<close>

theorem unassigned_read_throws:
  "(\<not> Assigned x \<longrightarrow>
      Value_get True x = Inl (SonnetException ''Variable has no assigned model!''))
   \<and> (Assigned x \<longrightarrow> Value_get True x = Inr (valueV x))
   \<and> ((\<forall>c\<in>set cs. \<not> is_Assign c) \<longrightarrow>
        Value_get True (fst (snd (run U DEBUG cs (fst (construct U k this n))))) =
          Inl (SonnetException ''Variable has no assigned model!''))"
  by (simp add: Value_get_def Assigned_def run_assignedSolver construct_unassigned)

text \<open>
  The example variable is not assigned and its read throws; once solver 1 has assigned
  the value 3 the read returns 3; a new variable whose upper bound and value were set by
  the caller is still not assigned, and its read throws.
\<close>

theorem unassigned_read_throws_witness:
  "\<not> Assigned example_Variable
   \<and> Value_get True example_Variable = Inl (SonnetException ''Variable has no assigned model!'')
   \<and> Assigned example_assigned
   \<and> Value_get True example_assigned = Inr 3
   \<and> \<not> is_Assign (Call_setUpper 5) \<and> \<not> is_Assign (Call_Value_set 3)
   \<and> Value_get True
        (fst (snd (run example_Utils True [Call_setUpper 5, Call_Value_set 3]
           (fst (construct example_Utils (ByBounds 0 10 Continuous) example_storage
              numberOfVariables_initial))))) =
       Inl (SonnetException ''Variable has no assigned model!'')"
  using unassigned_read_throws [of example_Variable "[Call_setUpper 5, Call_Value_set 3]"
      example_Utils True "ByBounds 0 10 Continuous" example_storage numberOfVariables_initial]
    unassigned_read_throws [of example_assigned "[]" example_Utils True
      "ByBounds 0 10 Continuous" example_storage numberOfVariables_initial]
  by (simp add: example_Variable_eq example_assigned_eq Assigned_def)

subsection \<open>Assignment by a solver\<close>

text \<open>
  C5, as the code has it. \<open>Assign(solver, offset, value, reducedCost)\<close> hands the solver
  and the offset to \<open>Assign\<close> of the base class, which records them, and overwrites
  \<open>value\<close> and \<open>reducedCost\<close>; it changes nothing else. No other call changes
  \<open>reducedCost\<close>. \<open>value\<close> has a second writer: the public setter of \<open>Value\<close> stores
  whatever the caller gives it. No call but these two changes \<open>value\<close>.
\<close>

theorem Assign_overwrites:
  "Assign solver off v rc x = (ModelEntity_Assign solver off x)\<lparr>valueV := v, reducedCost := rc\<rparr>
   \<and> Assign solver off v rc x =
       x\<lparr>assignedSolver := Some solver, offset := off, valueV := v, reducedCost := rc\<rparr>
   \<and> (\<not> is_Assign c \<longrightarrow> reducedCost (fst (snd (exec U DEBUG c x))) = reducedCost x)
   \<and> (\<not> is_Assign c \<longrightarrow> \<not> is_Value_set c \<longrightarrow>
        valueV (fst (snd (exec U DEBUG c x))) = valueV x)
   \<and> exec U DEBUG (Call_Value_set w) x = (Inr Void, x\<lparr>valueV := w\<rparr>, [])"
  by (simp add: exec_reducedCost exec_valueV Assign_def ModelEntity_Assign_def Value_set_def)

text \<open>
  On the example variable, whose value is 4 and whose reduced cost is 2: \<open>Assign\<close> stores
  all four arguments; setting the value leaves the reduced cost; setting the upper bound
  leaves the value.
\<close>

theorem Assign_overwrites_witness:
  "Assign 1 0 3 (1 / 2) example_Variable =
     example_Variable\<lparr>assignedSolver := Some 1, offset := 0, valueV := 3, reducedCost := 1 / 2\<rparr>
   \<and> \<not> is_Assign (Call_Value_set 7)
   \<and> reducedCost (fst (snd (exec example_Utils False (Call_Value_set 7) example_Variable))) = 2
   \<and> \<not> is_Assign (Call_setUpper 5) \<and> \<not> is_Value_set (Call_setUpper 5)
   \<and> valueV (fst (snd (exec example_Utils False (Call_setUpper 5) example_Variable))) = 4"
  using Assign_overwrites [of 1 0 3 "1 / 2" example_Variable "Call_Value_set 7" example_Utils False 7]
    Assign_overwrites [of 1 0 3 "1 / 2" example_Variable "Call_setUpper 5" example_Utils False 7]
  by (simp add: example_Variable_eq)

text \<open>
  C5 as stated fails: \<open>x.Value = 7\<close> is a call open to every caller, it is not \<open>Assign\<close>,
  and it changes the value of the example variable from 4 to 7.
\<close>

theorem value_only_by_Assign_counterexample:
  "\<not> is_Assign (Call_Value_set 7)
   \<and> valueV example_Variable = 4
   \<and> valueV (fst (snd (exec example_Utils False (Call_Value_set 7) example_Variable))) = 7"
  by (simp add: example_Variable_eq Value_set_def)

subsection \<open>32 bit counters\<close>

lemma sint_of_nat_small: "n < 2 ^ 31 \<Longrightarrow> sint (of_nat n :: int32) = int n"
  by (simp add: signed_of_nat signed_take_bit_int_eq_self)

lemma of_nat_positive: "0 < n \<Longrightarrow> n < 2 ^ 31 \<Longrightarrow> 0 <s (of_nat n :: int32)"
  by (simp add: word_sless_alt sint_of_nat_small)

lemma of_nat_neq_0: "0 < n \<Longrightarrow> n < 2 ^ 32 \<Longrightarrow> (of_nat n :: int32) \<noteq> 0"
  by (auto simp: word_of_nat_eq_0_iff dest: dvd_imp_le)

lemma of_nat_neq_1:
  assumes "1 < n" and "n < 2 ^ 32"
  shows "(of_nat n :: int32) \<noteq> 1"
proof
  assume "(of_nat n :: int32) = 1"
  then have "unat (of_nat n :: int32) = 1"
    by simp
  then have "n mod 2 ^ 32 = 1"
    by (simp add: unat_of_nat)
  with assms show False
    by simp
qed

subsection \<open>One freeze call\<close>

lemma Freeze_first:
  "frozen x = 0 \<Longrightarrow> \<not> DEBUG \<or> Assigned x \<Longrightarrow>
     Freeze DEBUG x =
       (Inr True, x\<lparr>frozen := 1\<rparr>,
        map (\<lambda>s. SetVariableBounds s (idV x) (valueV x) (valueV x)) (solvers x))"
  by (auto simp: Freeze_def Value_get_def Assigned_def Let_def foreach_solver_eq_map)

lemma Freeze_first_unassigned:
  "frozen x = 0 \<Longrightarrow> DEBUG \<Longrightarrow> \<not> Assigned x \<Longrightarrow>
     Freeze DEBUG x =
       (Inl (SonnetException ''Variable has no assigned model!''), x\<lparr>frozen := 1\<rparr>, [])"
  by (simp add: Freeze_def Value_get_def Assigned_def Let_def)

lemma Freeze_again:
  "frozen x \<noteq> 0 \<Longrightarrow> Freeze DEBUG x = (Inr False, x\<lparr>frozen := frozen x + 1\<rparr>, [])"
  by (simp add: Freeze_def Let_def)

lemma UnFreeze_not_frozen: "\<not> 0 <s frozen x \<Longrightarrow> UnFreeze x = (False, x, [])"
  by (simp add: UnFreeze_def)

lemma UnFreeze_last:
  "frozen x = 1 \<Longrightarrow>
     UnFreeze x =
       (True, x\<lparr>frozen := 0\<rparr>,
        map (\<lambda>s. SetVariableBounds s (idV x) (lower x) (upper x)) (solvers x))"
  by (simp add: UnFreeze_def Let_def Lower_get_def getUpper_def foreach_solver_eq_map
      word_sless_alt)

lemma UnFreeze_more:
  "0 <s frozen x \<Longrightarrow> frozen x \<noteq> 1 \<Longrightarrow> UnFreeze x = (False, x\<lparr>frozen := frozen x - 1\<rparr>, [])"
  by (simp add: UnFreeze_def Let_def)

subsection \<open>Sequences of freeze calls\<close>

lemma run_append:
  "run U D (cs @ ds) x =
     (case run U D cs x of
        (Some e, x1, ns) \<Rightarrow> (Some e, x1, ns)
      | (None, x1, ns) \<Rightarrow> (case run U D ds x1 of (e, x2, ns2) \<Rightarrow> (e, x2, ns @ ns2)))"
proof (induction cs arbitrary: x)
  case Nil
  then show ?case by (simp split: prod.splits)
next
  case (Cons c cs)
  then show ?case
    by (simp split: prod.splits sum.splits option.splits)
qed

lemma run_Freeze_more:
  "frozen x = of_nat m \<Longrightarrow> 0 < m \<Longrightarrow> m + n < 2 ^ 32 \<Longrightarrow>
     run U D (replicate n Call_Freeze) x = (None, x\<lparr>frozen := of_nat (m + n)\<rparr>, [])"
proof (induction n arbitrary: x m)
  case 0
  then show ?case by simp
next
  case (Suc n)
  from Suc.prems have "frozen x \<noteq> 0"
    by (simp add: of_nat_neq_0)
  then have step: "Freeze D x = (Inr False, x\<lparr>frozen := of_nat (Suc m)\<rparr>, [])"
    using Suc.prems by (simp add: Freeze_again)
  have "run U D (replicate n Call_Freeze) (x\<lparr>frozen := of_nat (Suc m)\<rparr>) =
      (None, x\<lparr>frozen := of_nat (Suc m), frozen := of_nat (Suc m + n)\<rparr>, [])"
    using Suc.prems by (intro Suc.IH) simp_all
  with step show ?case
    by simp
qed

lemma run_UnFreeze_more:
  "frozen x = of_nat m \<Longrightarrow> n < m \<Longrightarrow> m < 2 ^ 31 \<Longrightarrow>
     run U D (replicate n Call_UnFreeze) x = (None, x\<lparr>frozen := of_nat (m - n)\<rparr>, [])"
proof (induction n arbitrary: x m)
  case 0
  then show ?case by simp
next
  case (Suc n)
  from Suc.prems have pos: "0 <s frozen x"
    by (simp add: of_nat_positive)
  from Suc.prems have "frozen x \<noteq> 1"
    by (simp add: of_nat_neq_1)
  with pos have "UnFreeze x = (False, x\<lparr>frozen := frozen x - 1\<rparr>, [])"
    by (rule UnFreeze_more)
  moreover from Suc.prems have "frozen x - 1 = of_nat (m - 1)"
    by (simp add: of_nat_diff)
  ultimately have step: "UnFreeze x = (False, x\<lparr>frozen := of_nat (m - 1)\<rparr>, [])"
    by simp
  have "run U D (replicate n Call_UnFreeze) (x\<lparr>frozen := of_nat (m - 1)\<rparr>) =
      (None, x\<lparr>frozen := of_nat (m - 1), frozen := of_nat (m - 1 - n)\<rparr>, [])"
    using Suc.prems by (intro Suc.IH) simp_all
  with step show ?case
    by simp
qed

lemma run_UnFreeze_not_frozen:
  "\<not> 0 <s frozen x \<Longrightarrow> run U D (replicate n Call_UnFreeze) x = (None, x, [])"
  by (induction n) (simp_all add: UnFreeze_not_frozen)

lemma run_Freezes:
  assumes "frozen x = 0" and "\<not> D \<or> Assigned x" and "Suc k < 2 ^ 32"
  shows "run U D (replicate (Suc k) Call_Freeze) x =
      (None, x\<lparr>frozen := of_nat (Suc k)\<rparr>,
       map (\<lambda>s. SetVariableBounds s (idV x) (valueV x) (valueV x)) (solvers x))"
proof -
  have "run U D (replicate k Call_Freeze) (x\<lparr>frozen := 1\<rparr>) =
      (None, x\<lparr>frozen := 1, frozen := of_nat (1 + k)\<rparr>, [])"
    using assms(3) by (intro run_Freeze_more) simp_all
  then show ?thesis
    using assms(1,2) by (simp add: Freeze_first)
qed

lemma run_UnFreezes:
  assumes "frozen x = of_nat (Suc k)" and "Suc k < 2 ^ 31"
  shows "run U D (replicate (Suc k) Call_UnFreeze) x =
      (None, x\<lparr>frozen := 0\<rparr>,
       map (\<lambda>s. SetVariableBounds s (idV x) (lower x) (upper x)) (solvers x))"
proof -
  have "run U D (replicate k Call_UnFreeze) x = (None, x\<lparr>frozen := of_nat (Suc k - k)\<rparr>, [])"
    using assms by (intro run_UnFreeze_more) simp_all
  then have first: "run U D (replicate k Call_UnFreeze) x = (None, x\<lparr>frozen := 1\<rparr>, [])"
    by simp
  have "replicate (Suc k) Call_UnFreeze = replicate k Call_UnFreeze @ [Call_UnFreeze]"
    by (simp add: replicate_append_same)
  then show ?thesis
    using first by (simp add: run_append UnFreeze_last del: replicate.simps)
qed

lemma run_Freezes_UnFreezes:
  assumes "frozen x = 0" and "\<not> D \<or> Assigned x" and "0 < k" and "k < 2 ^ 31"
  shows "run U D (replicate k Call_Freeze @ replicate k Call_UnFreeze @ replicate j Call_UnFreeze) x =
      (None, x,
       map (\<lambda>s. SetVariableBounds s (idV x) (valueV x) (valueV x)) (solvers x)
       @ map (\<lambda>s. SetVariableBounds s (idV x) (lower x) (upper x)) (solvers x))"
proof -
  from assms(3) obtain k' where k: "k = Suc k'"
    by (cases k) auto
  let ?pins = "map (\<lambda>s. SetVariableBounds s (idV x) (valueV x) (valueV x)) (solvers x)"
  let ?restores = "map (\<lambda>s. SetVariableBounds s (idV x) (lower x) (upper x)) (solvers x)"
  have up: "run U D (replicate k Call_Freeze) x = (None, x\<lparr>frozen := of_nat k\<rparr>, ?pins)"
    unfolding k using assms(1,2,4) k by (intro run_Freezes) simp_all
  have "run U D (replicate k Call_UnFreeze) (x\<lparr>frozen := of_nat k\<rparr>) =
      (None, x\<lparr>frozen := of_nat k, frozen := 0\<rparr>, ?restores)"
    unfolding k using assms(4) k run_UnFreezes [of "x\<lparr>frozen := of_nat (Suc k')\<rparr>" k' U D]
    by simp
  moreover have "x\<lparr>frozen := of_nat k, frozen := 0\<rparr> = x"
    using assms(1) by simp
  ultimately have down: "run U D (replicate k Call_UnFreeze) (x\<lparr>frozen := of_nat k\<rparr>) =
      (None, x, ?restores)"
    by simp
  have rest: "run U D (replicate j Call_UnFreeze) x = (None, x, [])"
    using assms(1) by (intro run_UnFreeze_not_frozen) (simp add: word_sless_alt)
  show ?thesis
    using up down rest by (simp add: run_append del: replicate.simps)
qed

subsection \<open>Freeze\<close>

text \<open>
  C2, as the code has it. \<open>Freeze()\<close> adds one to the count in every call. When the count
  was 0 and the value can be read (the build has no DEBUG, or the variable is assigned),
  it reads the value, tells every solver of \<open>solvers\<close> to set both bounds to that value,
  leaves \<open>lower\<close> and \<open>upper\<close> of the object as they are and returns true. When the count
  was 0 in a build with DEBUG and the variable is not assigned, reading the value throws:
  \<open>Freeze()\<close> throws that exception, returns nothing and tells no solver. When the count
  was not 0 it returns false and tells no solver. It returns true only when the count
  was 0.
\<close>

theorem Freeze_counts:
  "frozen (fst (snd (Freeze DEBUG x))) = frozen x + 1
   \<and> (frozen x = 0 \<longrightarrow> \<not> DEBUG \<or> Assigned x \<longrightarrow>
        Freeze DEBUG x =
          (Inr True, x\<lparr>frozen := 1\<rparr>,
           map (\<lambda>s. SetVariableBounds s (idV x) (valueV x) (valueV x)) (solvers x))
        \<and> Value_get DEBUG x = Inr (valueV x)
        \<and> lower (fst (snd (Freeze DEBUG x))) = lower x
        \<and> upper (fst (snd (Freeze DEBUG x))) = upper x)
   \<and> (frozen x = 0 \<longrightarrow> DEBUG \<longrightarrow> \<not> Assigned x \<longrightarrow>
        fst (Freeze DEBUG x) = Inl (SonnetException ''Variable has no assigned model!'')
        \<and> snd (snd (Freeze DEBUG x)) = [])
   \<and> (frozen x \<noteq> 0 \<longrightarrow> Freeze DEBUG x = (Inr False, x\<lparr>frozen := frozen x + 1\<rparr>, []))
   \<and> (fst (Freeze DEBUG x) = Inr True \<longrightarrow> frozen x = 0)"
proof (intro conjI impI)
  show "frozen (fst (snd (Freeze DEBUG x))) = frozen x + 1"
    by (simp add: Freeze_def Let_def split: sum.splits)
next
  assume "frozen x = 0" and "\<not> DEBUG \<or> Assigned x"
  then show "Freeze DEBUG x =
      (Inr True, x\<lparr>frozen := 1\<rparr>,
       map (\<lambda>s. SetVariableBounds s (idV x) (valueV x) (valueV x)) (solvers x))"
    by (rule Freeze_first)
next
  assume "frozen x = 0" and "\<not> DEBUG \<or> Assigned x"
  then show "Value_get DEBUG x = Inr (valueV x)"
    by (auto simp: Value_get_def)
next
  assume "frozen x = 0" and "\<not> DEBUG \<or> Assigned x"
  then show "lower (fst (snd (Freeze DEBUG x))) = lower x"
    by (simp add: Freeze_first)
next
  assume "frozen x = 0" and "\<not> DEBUG \<or> Assigned x"
  then show "upper (fst (snd (Freeze DEBUG x))) = upper x"
    by (simp add: Freeze_first)
next
  assume "frozen x = 0" and "DEBUG" and "\<not> Assigned x"
  then show "fst (Freeze DEBUG x) = Inl (SonnetException ''Variable has no assigned model!'')"
    by (simp add: Freeze_first_unassigned)
next
  assume "frozen x = 0" and "DEBUG" and "\<not> Assigned x"
  then show "snd (snd (Freeze DEBUG x)) = []"
    by (simp add: Freeze_first_unassigned)
next
  assume "frozen x \<noteq> 0"
  then show "Freeze DEBUG x = (Inr False, x\<lparr>frozen := frozen x + 1\<rparr>, [])"
    by (rule Freeze_again)
next
  assume true: "fst (Freeze DEBUG x) = Inr True"
  show "frozen x = 0"
  proof (rule ccontr)
    assume "frozen x \<noteq> 0"
    then have "fst (Freeze DEBUG x) = Inr False"
      by (simp add: Freeze_again)
    with true show False
      by simp
  qed
qed

text \<open>
  On the example variable, with solvers 1 and 2: once solver 1 has assigned the value 3,
  the first freeze pins both solvers at 3 and returns true, with DEBUG too; with no
  assignment, a build without DEBUG pins at whatever the storage held (here 4) and a
  build with DEBUG throws; a second freeze returns false and tells nobody.
\<close>

theorem Freeze_counts_witness:
  "frozen example_assigned = 0 \<and> Assigned example_assigned
   \<and> Freeze True example_assigned =
       (Inr True, example_assigned\<lparr>frozen := 1\<rparr>,
        [SetVariableBounds 1 0 3 3, SetVariableBounds 2 0 3 3])
   \<and> frozen example_Variable = 0 \<and> \<not> Assigned example_Variable
   \<and> Freeze False example_Variable =
       (Inr True, example_Variable\<lparr>frozen := 1\<rparr>, [SetVariableBounds 1 0 4 4, SetVariableBounds 2 0 4 4])
   \<and> fst (Freeze True example_Variable) = Inl (SonnetException ''Variable has no assigned model!'')
   \<and> frozen (example_assigned\<lparr>frozen := 1\<rparr>) \<noteq> 0
   \<and> Freeze True (example_assigned\<lparr>frozen := 1\<rparr>) = (Inr False, example_assigned\<lparr>frozen := 2\<rparr>, [])"
  using Freeze_counts [of True example_assigned]
    Freeze_counts [of False example_Variable]
    Freeze_counts [of True example_Variable]
    Freeze_counts [of True "example_assigned\<lparr>frozen := 1\<rparr>"]
  by (simp add: example_Variable_eq example_assigned_eq Assigned_def)

text \<open>
  C2 as stated fails in a build with DEBUG: \<open>Variable x(0.0, 10.0, Continuous)\<close> has the
  count 0, and its first \<open>x.Freeze()\<close> throws instead of returning true.
\<close>

theorem Freeze_returns_true_counterexample:
  "frozen (fst (Variable_bounds 0 10 Continuous example_storage numberOfVariables_initial)) = 0
   \<and> fst (Freeze True (fst (Variable_bounds 0 10 Continuous example_storage numberOfVariables_initial)))
       = Inl (SonnetException ''Variable has no assigned model!'')
   \<and> fst (Freeze True (fst (Variable_bounds 0 10 Continuous example_storage numberOfVariables_initial)))
       \<noteq> Inr True"
  by (simp add: example_fresh_eq Freeze_def Value_get_def Assigned_def Let_def)

subsection \<open>UnFreeze\<close>

text \<open>
  C3, as the code has it. \<open>UnFreeze()\<close> with the count 0 (or any count that is not
  positive) changes nothing and returns false. With a positive count it subtracts one;
  when the count was 1 it tells every solver of \<open>solvers\<close> once to set the bounds to
  \<open>lower\<close> and \<open>upper\<close> as the object holds them at that moment (after a \<open>setUpper\<close> made
  while frozen: the new upper bound) and returns true, otherwise it returns false and
  tells nobody. For an unfrozen variable whose value can be read and for \<open>0 < k < 2^31\<close>,
  \<open>k\<close> calls of \<open>Freeze()\<close>, then \<open>k\<close> calls of \<open>UnFreeze()\<close>, then any number \<open>j\<close> of
  further calls of \<open>UnFreeze()\<close> leave the object as it was and tell each solver of
  \<open>solvers\<close> the pin once and then the restore once, and nothing else.
\<close>

theorem UnFreeze_counts:
  "(frozen x = 0 \<longrightarrow> UnFreeze x = (False, x, []))
   \<and> (\<not> 0 <s frozen x \<longrightarrow> UnFreeze x = (False, x, []))
   \<and> (0 <s frozen x \<longrightarrow> frozen (fst (snd (UnFreeze x))) = frozen x - 1)
   \<and> (0 <s frozen x \<longrightarrow> frozen x \<noteq> 1 \<longrightarrow>
        UnFreeze x = (False, x\<lparr>frozen := frozen x - 1\<rparr>, []))
   \<and> (frozen x = 1 \<longrightarrow>
        UnFreeze x =
          (True, x\<lparr>frozen := 0\<rparr>,
           map (\<lambda>s. SetVariableBounds s (idV x) (lower x) (upper x)) (solvers x)))
   \<and> (frozen x = 1 \<longrightarrow> CompareToEps U (upper x) u \<noteq> 0 \<longrightarrow>
        UnFreeze (fst (setUpper U u x)) =
          (True, x\<lparr>upper := u, frozen := 0\<rparr>,
           map (\<lambda>s. SetVariableBounds s (idV x) (lower x) u) (solvers x)))
   \<and> (frozen x = 0 \<longrightarrow> \<not> DEBUG \<or> Assigned x \<longrightarrow> 0 < k \<longrightarrow> k < 2 ^ 31 \<longrightarrow>
        run U DEBUG (replicate k Call_Freeze @ replicate k Call_UnFreeze @ replicate j Call_UnFreeze) x =
          (None, x,
           map (\<lambda>s. SetVariableBounds s (idV x) (valueV x) (valueV x)) (solvers x)
           @ map (\<lambda>s. SetVariableBounds s (idV x) (lower x) (upper x)) (solvers x)))"
proof -
  have zero: "UnFreeze x = (False, x, [])" if "frozen x = 0"
    using that by (simp add: UnFreeze_not_frozen word_sless_alt)
  have dec: "frozen (fst (snd (UnFreeze x))) = frozen x - 1" if "0 <s frozen x"
    using that by (simp add: UnFreeze_def Let_def)
  have latest: "UnFreeze (fst (setUpper U u x)) =
      (True, x\<lparr>upper := u, frozen := 0\<rparr>,
       map (\<lambda>s. SetVariableBounds s (idV x) (lower x) u) (solvers x))"
    if "frozen x = 1" and "CompareToEps U (upper x) u \<noteq> 0"
    using that by (simp add: setUpper_def Let_def UnFreeze_last)
  show ?thesis
    using zero dec latest
    by (simp add: UnFreeze_not_frozen UnFreeze_more UnFreeze_last run_Freezes_UnFreezes)
qed

text \<open>
  On the example variable: unfreezing at count 0 does nothing; at count 2 it only
  counts down; at count 1 it restores the bounds 0 and 10, or 0 and 5 after
  \<open>setUpper(5)\<close>. On the assigned example variable, in a build with DEBUG, two freezes,
  two unfreezes and one more unfreeze give one pin at 3 and one restore per solver.
\<close>

theorem UnFreeze_counts_witness:
  "frozen example_Variable = 0
   \<and> UnFreeze example_Variable = (False, example_Variable, [])
   \<and> 0 <s frozen (example_Variable\<lparr>frozen := 2\<rparr>)
   \<and> UnFreeze (example_Variable\<lparr>frozen := 2\<rparr>) = (False, example_Variable\<lparr>frozen := 1\<rparr>, [])
   \<and> UnFreeze (example_Variable\<lparr>frozen := 1\<rparr>) =
       (True, example_Variable, [SetVariableBounds 1 0 0 10, SetVariableBounds 2 0 0 10])
   \<and> CompareToEps example_Utils (upper (example_Variable\<lparr>frozen := 1\<rparr>)) 5 \<noteq> 0
   \<and> UnFreeze (fst (setUpper example_Utils 5 (example_Variable\<lparr>frozen := 1\<rparr>))) =
       (True, example_Variable\<lparr>upper := 5\<rparr>, [SetVariableBounds 1 0 0 5, SetVariableBounds 2 0 0 5])
   \<and> frozen example_assigned = 0 \<and> Assigned example_assigned
   \<and> (0::nat) < 2 \<and> (2::nat) < 2 ^ 31
   \<and> run example_Utils True
        (replicate 2 Call_Freeze @ replicate 2 Call_UnFreeze @ replicate 1 Call_UnFreeze)
        example_assigned =
       (None, example_assigned,
        [SetVariableBounds 1 0 3 3, SetVariableBounds 2 0 3 3,
         SetVariableBounds 1 0 0 10, SetVariableBounds 2 0 0 10])"
  using UnFreeze_counts [of example_Variable example_Utils 5 False 2 1]
    UnFreeze_counts [of "example_Variable\<lparr>frozen := 2\<rparr>" example_Utils 5 False 2 1]
    UnFreeze_counts [of "example_Variable\<lparr>frozen := 1\<rparr>" example_Utils 5 False 2 1]
    UnFreeze_counts [of example_assigned example_Utils 5 True 2 1]
  by (simp add: example_Variable_eq example_assigned_eq example_CompareToEps Assigned_def
      word_sless_alt del: replicate.simps)

text \<open>
  C3 as stated fails twice. In a build with DEBUG the first \<open>Freeze()\<close> of the example
  variable, which no solver has assigned, throws: for \<open>k = 1\<close> there is neither a pin nor
  a restore. And the count is an \<open>int\<close>: on the assigned example variable, in any build,
  \<open>2^31\<close> calls of \<open>Freeze()\<close> pin the solvers once and wrap the count to \<open>-2^31\<close>; every
  \<open>UnFreeze()\<close> then finds the count not positive, and the \<open>2^31\<close> calls of \<open>UnFreeze()\<close>
  that follow restore nothing.
\<close>

theorem Freeze_UnFreeze_symmetry_counterexample:
  "frozen example_Variable = 0
   \<and> run example_Utils True (replicate 1 Call_Freeze @ replicate 1 Call_UnFreeze) example_Variable =
       (Some (SonnetException ''Variable has no assigned model!''),
        example_Variable\<lparr>frozen := 1\<rparr>, [])
   \<and> frozen example_assigned = 0
   \<and> run example_Utils True
        (replicate 2147483648 Call_Freeze @ replicate 2147483648 Call_UnFreeze) example_assigned =
       (None, example_assigned\<lparr>frozen := - 2147483648\<rparr>,
        [SetVariableBounds 1 0 3 3, SetVariableBounds 2 0 3 3])"
proof -
  have zero: "frozen example_Variable = 0"
    by (simp add: example_Variable_eq)
  have debug: "run example_Utils True (replicate 1 Call_Freeze @ replicate 1 Call_UnFreeze)
      example_Variable =
      (Some (SonnetException ''Variable has no assigned model!''),
       example_Variable\<lparr>frozen := 1\<rparr>, [])"
    by (simp add: example_Variable_eq Freeze_def Value_get_def Assigned_def Let_def)
  have zero': "frozen example_assigned = 0"
    by (simp add: example_assigned_eq)
  have assigned: "\<not> True \<or> Assigned example_assigned"
    by (simp add: example_assigned_eq Assigned_def)
  have many: "(2147483648::nat) = Suc 2147483647"
    by simp
  have up: "run example_Utils True (replicate 2147483648 Call_Freeze) example_assigned =
      (None, example_assigned\<lparr>frozen := - 2147483648\<rparr>,
       [SetVariableBounds 1 0 3 3, SetVariableBounds 2 0 3 3])"
    unfolding many
    using run_Freezes [of example_assigned True 2147483647 example_Utils] zero' assigned
    by (simp add: example_assigned_eq del: replicate.simps)
  have "\<not> 0 <s frozen (example_assigned\<lparr>frozen := - 2147483648\<rparr>)"
    by (simp add: word_sless_alt)
  then have down: "run example_Utils True (replicate 2147483648 Call_UnFreeze)
      (example_assigned\<lparr>frozen := - 2147483648\<rparr>) =
      (None, example_assigned\<lparr>frozen := - 2147483648\<rparr>, [])"
    by (rule run_UnFreeze_not_frozen)
  have "run example_Utils True
      (replicate 2147483648 Call_Freeze @ replicate 2147483648 Call_UnFreeze) example_assigned =
      (None, example_assigned\<lparr>frozen := - 2147483648\<rparr>,
       [SetVariableBounds 1 0 3 3, SetVariableBounds 2 0 3 3])"
    using up down by (simp add: run_append del: replicate.simps)
  with zero debug zero' show ?thesis
    by (simp del: replicate.simps)
qed

subsection \<open>Bounds set while frozen\<close>

text \<open>
  C4, as the code has it. The setters of the bounds never read the count: on a frozen
  variable they do what they do on any other. A bound that changes while the variable is
  frozen is stored in the object at once, and every solver of \<open>solvers\<close> is told the new
  bound at once, by \<open>SetVariableUpper\<close> or \<open>SetVariableLower\<close>. The last \<open>UnFreeze()\<close> then
  tells every solver the bounds as the object holds them, the latest ones.
\<close>

theorem frozen_bounds_still_notified:
  "setUpper U u (x\<lparr>frozen := f\<rparr>) =
     (case setUpper U u x of (x1, ns) \<Rightarrow> (x1\<lparr>frozen := f\<rparr>, ns))
   \<and> Lower_set U l (x\<lparr>frozen := f\<rparr>) =
       (case Lower_set U l x of (x1, ns) \<Rightarrow> (x1\<lparr>frozen := f\<rparr>, ns))
   \<and> (0 <s frozen x \<longrightarrow> CompareToEps U (upper x) u \<noteq> 0 \<longrightarrow>
        setUpper U u x = (x\<lparr>upper := u\<rparr>, map (\<lambda>s. SetVariableUpper s (idV x) u) (solvers x)))
   \<and> (0 <s frozen x \<longrightarrow> CompareToEps U (lower x) l \<noteq> 0 \<longrightarrow>
        Lower_set U l x = (x\<lparr>lower := l\<rparr>, map (\<lambda>s. SetVariableLower s (idV x) l) (solvers x)))
   \<and> (frozen x = 1 \<longrightarrow> CompareToEps U (upper x) u \<noteq> 0 \<longrightarrow> CompareToEps U (lower x) l \<noteq> 0 \<longrightarrow>
        run U DEBUG [Call_setUpper u, Call_Lower_set l, Call_UnFreeze] x =
          (None, x\<lparr>upper := u, lower := l, frozen := 0\<rparr>,
           map (\<lambda>s. SetVariableUpper s (idV x) u) (solvers x)
           @ map (\<lambda>s. SetVariableLower s (idV x) l) (solvers x)
           @ map (\<lambda>s. SetVariableBounds s (idV x) l u) (solvers x)))"
proof (intro conjI impI)
  show "setUpper U u (x\<lparr>frozen := f\<rparr>) =
      (case setUpper U u x of (x1, ns) \<Rightarrow> (x1\<lparr>frozen := f\<rparr>, ns))"
    by (simp add: setUpper_def Let_def)
next
  show "Lower_set U l (x\<lparr>frozen := f\<rparr>) =
      (case Lower_set U l x of (x1, ns) \<Rightarrow> (x1\<lparr>frozen := f\<rparr>, ns))"
    by (simp add: Lower_set_def Let_def)
next
  assume "CompareToEps U (upper x) u \<noteq> 0"
  then show "setUpper U u x =
      (x\<lparr>upper := u\<rparr>, map (\<lambda>s. SetVariableUpper s (idV x) u) (solvers x))"
    by (rule setUpper_changed)
next
  assume "CompareToEps U (lower x) l \<noteq> 0"
  then show "Lower_set U l x =
      (x\<lparr>lower := l\<rparr>, map (\<lambda>s. SetVariableLower s (idV x) l) (solvers x))"
    by (rule Lower_set_changed)
next
  assume "frozen x = 1" and "CompareToEps U (upper x) u \<noteq> 0" and "CompareToEps U (lower x) l \<noteq> 0"
  then show "run U DEBUG [Call_setUpper u, Call_Lower_set l, Call_UnFreeze] x =
      (None, x\<lparr>upper := u, lower := l, frozen := 0\<rparr>,
       map (\<lambda>s. SetVariableUpper s (idV x) u) (solvers x)
       @ map (\<lambda>s. SetVariableLower s (idV x) l) (solvers x)
       @ map (\<lambda>s. SetVariableBounds s (idV x) l u) (solvers x))"
    by (simp add: setUpper_changed Lower_set_changed UnFreeze_last)
qed

text \<open>
  The example variable at count 1: \<open>setUpper(5)\<close> and \<open>Lower = 1\<close> are stored and told to
  both solvers, and the unfreeze that follows restores the bounds 1 and 5.
\<close>

theorem frozen_bounds_still_notified_witness:
  "0 <s frozen (example_Variable\<lparr>frozen := 1\<rparr>)
   \<and> CompareToEps example_Utils (upper (example_Variable\<lparr>frozen := 1\<rparr>)) 5 \<noteq> 0
   \<and> CompareToEps example_Utils (lower (example_Variable\<lparr>frozen := 1\<rparr>)) 1 \<noteq> 0
   \<and> setUpper example_Utils 5 (example_Variable\<lparr>frozen := 1\<rparr>) =
       (example_Variable\<lparr>frozen := 1, upper := 5\<rparr>, [SetVariableUpper 1 0 5, SetVariableUpper 2 0 5])
   \<and> run example_Utils False [Call_setUpper 5, Call_Lower_set 1, Call_UnFreeze]
        (example_Variable\<lparr>frozen := 1\<rparr>) =
       (None, example_Variable\<lparr>upper := 5, lower := 1\<rparr>,
        [SetVariableUpper 1 0 5, SetVariableUpper 2 0 5,
         SetVariableLower 1 0 1, SetVariableLower 2 0 1,
         SetVariableBounds 1 0 1 5, SetVariableBounds 2 0 1 5])"
  using frozen_bounds_still_notified [where U = example_Utils and u = 5 and l = 1 and f = 1
      and DEBUG = False and x = "example_Variable\<lparr>frozen := 1\<rparr>"]
  by (simp add: example_Variable_eq example_CompareToEps word_sless_alt setUpper_def
      Lower_set_def Let_def)

text \<open>
  C4 as stated fails: solver 1 has assigned the example variable the value 3, and
  \<open>Freeze()\<close> pins the solvers 1 and 2 at 3. \<open>setUpper(5)\<close> on the frozen variable then
  calls \<open>SetVariableUpper(x, 5)\<close> on both, before any \<open>UnFreeze()\<close>.
\<close>

theorem frozen_solver_sees_bound_change_counterexample:
  "Freeze True example_assigned =
     (Inr True, example_assigned\<lparr>frozen := 1\<rparr>, [SetVariableBounds 1 0 3 3, SetVariableBounds 2 0 3 3])
   \<and> IsFrozen (example_assigned\<lparr>frozen := 1\<rparr>)
   \<and> setUpper example_Utils 5 (example_assigned\<lparr>frozen := 1\<rparr>) =
       (example_assigned\<lparr>frozen := 1, upper := 5\<rparr>, [SetVariableUpper 1 0 5, SetVariableUpper 2 0 5])
   \<and> received 1 (snd (setUpper example_Utils 5 (example_assigned\<lparr>frozen := 1\<rparr>))) =
       [SetVariableUpper 1 0 5]"
  by (simp add: example_assigned_eq example_CompareToEps Freeze_def Value_get_def Assigned_def
      Let_def setUpper_def IsFrozen_def received_def word_sless_alt)

subsection \<open>Construction and the counter\<close>

lemma of_nat_inj_32:
  assumes "i < 2 ^ 32" and "j < 2 ^ 32" and "(of_nat i :: int32) = of_nat j"
  shows "i = j"
proof -
  from assms(3) have "unat (of_nat i :: int32) = unat (of_nat j :: int32)"
    by simp
  then have "i mod 2 ^ 32 = j mod 2 ^ 32"
    by (simp add: unat_of_nat)
  with assms(1,2) show ?thesis
    by simp
qed

lemma of_nat_increasing:
  "i < j \<Longrightarrow> j < 2 ^ 31 \<Longrightarrow> (of_nat i :: int32) <s of_nat j"
  by (simp add: word_sless_alt sint_of_nat_small)

lemma GutsOfConstructor_id:
  "idV (fst (GutsOfConstructor n lo up t this c)) = c"
  by (simp add: GutsOfConstructor_def Let_def setName_def)

lemma GutsOfConstructor_counter:
  "snd (GutsOfConstructor n lo up t this c) = c + 1"
  by (simp add: GutsOfConstructor_def Let_def)

lemma GutsOfConstructor_name:
  "name (fst (GutsOfConstructor n lo up t this c)) = (if n = [] then string_format_Var c else n)"
  by (simp add: GutsOfConstructor_def Let_def setName_def)

lemma GutsOfConstructor_fields:
  "lower (fst (GutsOfConstructor n lo up t this c)) = lo
   \<and> upper (fst (GutsOfConstructor n lo up t this c)) = up
   \<and> typeV (fst (GutsOfConstructor n lo up t this c)) = t
   \<and> frozen (fst (GutsOfConstructor n lo up t this c)) = 0"
  by (simp add: GutsOfConstructor_def Let_def setName_def)

lemmas constructor_defs =
  Variable_type_def Variable_bounds_def Variable_name_type_def Variable_name_bounds_def

lemma construct_id: "idV (fst (construct U k this c)) = c"
  by (cases k) (simp_all add: constructor_defs GutsOfConstructor_id)

lemma construct_counter: "snd (construct U k this c) = c + 1"
  by (cases k) (simp_all add: constructor_defs GutsOfConstructor_counter)

lemma construct_name:
  "name (fst (construct U k this c)) =
     (if supplied_name k = [] then string_format_Var c else supplied_name k)"
  by (cases k) (simp_all add: constructor_defs GutsOfConstructor_name)

lemma construct_shared:
  "construct U k this c =
     GutsOfConstructor (supplied_name k) (lower (fst (construct U k this c)))
       (upper (fst (construct U k this c))) (typeV (fst (construct U k this c)))
       (ModelEntity_ctor (supplied_name k) this) c"
  by (cases k) (simp_all add: constructor_defs GutsOfConstructor_fields)

lemma construct_all_Cons:
  "construct_all U ((k, this) # rest) c =
     (fst (construct U k this c) # fst (construct_all U rest (c + 1)),
      snd (construct_all U rest (c + 1)))"
  using construct_counter [of U k this c] by (auto split: prod.splits)

lemma construct_all_length: "length (fst (construct_all U cs c)) = length cs"
proof (induction cs arbitrary: c)
  case Nil
  then show ?case by simp
next
  case (Cons a cs)
  then show ?case
    by (cases a) (simp add: construct_all_Cons del: construct_all.simps)
qed

lemma construct_all_counter: "snd (construct_all U cs c) = c + of_nat (length cs)"
proof (induction cs arbitrary: c)
  case Nil
  then show ?case by simp
next
  case (Cons a cs)
  then show ?case
    by (cases a) (simp add: construct_all_Cons del: construct_all.simps)
qed

lemma construct_all_nth:
  "i < length cs \<Longrightarrow>
     fst (construct_all U cs c) ! i = fst (construct U (fst (cs ! i)) (snd (cs ! i)) (c + of_nat i))"
proof (induction cs arbitrary: c i)
  case Nil
  then show ?case by simp
next
  case (Cons a cs)
  obtain k this where a: "a = (k, this)"
    by (cases a)
  show ?case
  proof (cases i)
    case 0
    then show ?thesis
      by (simp add: a construct_all_Cons del: construct_all.simps)
  next
    case (Suc i')
    with Cons.prems have "i' < length cs"
      by simp
    then have "fst (construct_all U cs (c + 1)) ! i' =
        fst (construct U (fst (cs ! i')) (snd (cs ! i')) (c + 1 + of_nat i'))"
      by (rule Cons.IH)
    then show ?thesis
      by (simp add: a Suc construct_all_Cons add.assoc del: construct_all.simps)
  qed
qed

lemma construct_all_id:
  "i < length cs \<Longrightarrow> idV (fst (construct_all U cs c) ! i) = c + of_nat i"
  by (simp add: construct_all_nth construct_id)

lemma construct_all_name:
  "i < length cs \<Longrightarrow>
     name (fst (construct_all U cs c) ! i) =
       (if supplied_name (fst (cs ! i)) = [] then string_format_Var (c + of_nat i)
        else supplied_name (fst (cs ! i)))"
  by (simp add: construct_all_nth construct_name)

lemma construct_all_distinct:
  assumes "length cs \<le> 2 ^ 32"
  shows "distinct (map idV (fst (construct_all U cs c)))"
proof -
  have "i = j"
    if "i < length cs" and "j < length cs"
      and "map idV (fst (construct_all U cs c)) ! i = map idV (fst (construct_all U cs c)) ! j"
    for i j
  proof -
    from that have "c + of_nat i = c + of_nat j"
      by (simp add: construct_all_length construct_all_id)
    then have "(of_nat i :: int32) = of_nat j"
      by simp
    moreover from that assms have "i < 2 ^ 32" and "j < 2 ^ 32"
      by simp_all
    ultimately show ?thesis
      by (rule of_nat_inj_32 [rotated 2])
  qed
  then show ?thesis
    by (auto simp: distinct_conv_nth construct_all_length)
qed

text \<open>
  C8, as the code has it. Run any sequence of calls of the four public constructors on
  the counter, which starts at 0. The constructions return as many variables as there are
  calls and leave the counter at their number (as a 32 bit \<open>int\<close>). The \<open>i\<close>-th variable
  gets the id \<open>i\<close>; its name is the name the call supplied, or \<open>Var_<id>\<close> when the call
  supplied none or an empty one. The ids are pairwise different in a sequence of at most
  \<open>2^32\<close> constructions, and strictly increasing in construction order in one of at most
  \<open>2^31\<close>. Every constructor is the shared routine \<open>GutsOfConstructor\<close>, run on the
  supplied name and on the bounds and the type that the variable ends with.
\<close>

theorem ids_from_one_counter:
  "vs = fst (construct_all U cs numberOfVariables_initial) \<Longrightarrow>
     length vs = length cs
     \<and> snd (construct_all U cs numberOfVariables_initial) = of_nat (length cs)
     \<and> (\<forall>i<length cs.
          idV (vs ! i) = of_nat i
          \<and> name (vs ! i) =
              (if supplied_name (fst (cs ! i)) = [] then string_format_Var (idV (vs ! i))
               else supplied_name (fst (cs ! i))))
     \<and> (length cs \<le> 2 ^ 32 \<longrightarrow> distinct (map idV vs))
     \<and> (length cs \<le> 2 ^ 31 \<longrightarrow> (\<forall>i j. i < j \<longrightarrow> j < length cs \<longrightarrow> idV (vs ! i) <s idV (vs ! j)))
     \<and> construct U k this c =
         GutsOfConstructor (supplied_name k) (lower (fst (construct U k this c)))
           (upper (fst (construct U k this c))) (typeV (fst (construct U k this c)))
           (ModelEntity_ctor (supplied_name k) this) c"
proof (intro conjI allI impI)
  assume vs: "vs = fst (construct_all U cs numberOfVariables_initial)"
  show "length vs = length cs"
    by (simp add: vs construct_all_length)
  show "snd (construct_all U cs numberOfVariables_initial) = of_nat (length cs)"
    by (simp add: construct_all_counter numberOfVariables_initial_def)
  show "distinct (map idV vs)" if "length cs \<le> 2 ^ 32"
    using that by (simp add: vs construct_all_distinct)
  show "idV (vs ! i) = of_nat i" if "i < length cs" for i
    using that by (simp add: vs construct_all_id numberOfVariables_initial_def)
  show "name (vs ! i) =
      (if supplied_name (fst (cs ! i)) = [] then string_format_Var (idV (vs ! i))
       else supplied_name (fst (cs ! i)))" if "i < length cs" for i
    using that by (simp add: vs construct_all_id construct_all_name)
  show "idV (vs ! i) <s idV (vs ! j)" if "length cs \<le> 2 ^ 31" and "i < j" and "j < length cs" for i j
  proof -
    from that have "j < 2 ^ 31" and "i < length cs"
      by simp_all
    with that show ?thesis
      by (simp add: vs construct_all_id numberOfVariables_initial_def of_nat_increasing)
  qed
  show "construct U k this c =
      GutsOfConstructor (supplied_name k) (lower (fst (construct U k this c)))
        (upper (fst (construct U k this c))) (typeV (fst (construct U k this c)))
        (ModelEntity_ctor (supplied_name k) this) c"
    by (rule construct_shared)
qed

text \<open>
  Three constructions: the ids are 0, 1 and 2, the names are the default \<open>Var_0\<close>, the
  supplied \<open>x\<close> and the default \<open>Var_2\<close>, and the counter ends at 3.
\<close>

theorem ids_from_one_counter_witness:
  "length example_constructions \<le> 2 ^ 31
   \<and> map idV (fst (construct_all example_Utils example_constructions numberOfVariables_initial)) =
       [0, 1, 2]
   \<and> map name (fst (construct_all example_Utils example_constructions numberOfVariables_initial)) =
       [''Var_0'', ''x'', ''Var_2'']
   \<and> snd (construct_all example_Utils example_constructions numberOfVariables_initial) = 3
   \<and> distinct (map idV (fst (construct_all example_Utils example_constructions numberOfVariables_initial)))
   \<and> idV (fst (construct_all example_Utils example_constructions numberOfVariables_initial) ! 1)
       <s idV (fst (construct_all example_Utils example_constructions numberOfVariables_initial) ! 2)"
  using ids_from_one_counter [OF refl, of example_Utils example_constructions
      "ByType Integer" example_storage 0]
  by (simp add: example_constructions_def numberOfVariables_initial_def constructor_defs
      GutsOfConstructor_def Let_def setName_def ModelEntity_ctor_def string_format_Var_def
      show_int32_def show_nat.simps digit_char_def word_sless_alt)

text \<open>
  C8 as stated fails for long sequences, because the counter is an \<open>int\<close>. Of \<open>2^31 + 1\<close>
  constructions the last gets the id \<open>-2^31\<close>, which is less than the id \<open>2^31 - 1\<close> of the one
  before it; of \<open>2^32 + 1\<close> constructions the last gets the id 0 of the first.
\<close>

theorem ids_wrap_counterexample:
  "idV (fst (construct_all example_Utils (replicate 2147483649 (ByType Continuous, example_storage))
          numberOfVariables_initial) ! 2147483648)
     <s idV (fst (construct_all example_Utils (replicate 2147483649 (ByType Continuous, example_storage))
          numberOfVariables_initial) ! 2147483647)
   \<and> idV (fst (construct_all example_Utils (replicate 4294967297 (ByType Continuous, example_storage))
          numberOfVariables_initial) ! 4294967296)
     = idV (fst (construct_all example_Utils (replicate 4294967297 (ByType Continuous, example_storage))
          numberOfVariables_initial) ! 0)"
  by (simp add: construct_all_id numberOfVariables_initial_def word_sless_alt
      del: replicate.simps)

subsection \<open>The factory over a count\<close>

lemma sint_succ:
  assumes "i <s (n :: int32)"
  shows "sint (i + 1) = sint i + 1"
proof -
  from assms have below: "sint i < sint n"
    by (simp add: word_sless_alt)
  have "sint n < 2 ^ 31"
    using sint_lt [of n] by simp
  with below have "sint i + 1 < 2 ^ 31"
    by simp
  moreover have "- (2 ^ 31) \<le> sint i"
    using sint_ge [of i] by simp
  ultimately show ?thesis
    by (simp add: sint_word_ariths signed_take_bit_int_eq_self)
qed

lemma Variable_name_bounds_counter: "snd (Variable_name_bounds nm lo up t this c) = c + 1"
  by (simp add: Variable_name_bounds_def GutsOfConstructor_counter)

lemma New_loop_step:
  assumes "i <s n"
  shows "New_loop heap varname lo up t n i c =
       (fst (Variable_name_bounds (if varname \<noteq> [] then string_format_s_i varname i else [])
               lo up t (heap (unat i)) c)
        # fst (New_loop heap varname lo up t n (i + 1) (c + 1)),
        snd (New_loop heap varname lo up t n (i + 1) (c + 1)))"
proof -
  define nm where "nm = (if varname \<noteq> [] then string_format_s_i varname i else [])"
  obtain v c1 where made: "Variable_name_bounds nm lo up t (heap (unat i)) c = (v, c1)"
    by force
  then have "c1 = c + 1"
    using Variable_name_bounds_counter [of nm lo up t "heap (unat i)" c] by simp
  with made have made': "Variable_name_bounds nm lo up t (heap (unat i)) c = (v, c + 1)"
    by simp
  obtain vs c2 where rest: "New_loop heap varname lo up t n (i + 1) (c + 1) = (vs, c2)"
    by force
  have "New_loop heap varname lo up t n i c = (v # vs, c2)"
    using assms made' rest by (subst New_loop.simps) (simp add: nm_def [symmetric])
  then show ?thesis
    using made' rest by (simp add: nm_def)
qed

lemma New_loop_stop: "\<not> i <s n \<Longrightarrow> New_loop heap varname lo up t n i c = ([], c)"
  by (subst New_loop.simps) simp

lemma New_loop_count_step:
  assumes "i <s (n :: int32)"
  shows "nat (sint n - sint i) = Suc (nat (sint n - sint (i + 1)))"
proof -
  from assms have "sint i < sint n"
    by (simp add: word_sless_alt)
  then show ?thesis
    by (simp add: sint_succ [OF assms])
qed

lemma New_loop_length:
  "length (fst (New_loop heap varname lo up t n i c)) = nat (sint n - sint i)"
proof (induction k \<equiv> "nat (sint n - sint i)" arbitrary: i c)
  case 0
  then have "\<not> i <s n"
    by (simp add: word_sless_alt)
  with 0 show ?case
    by (simp add: New_loop_stop)
next
  case (Suc k)
  then have less: "i <s n"
    by (simp add: word_sless_alt)
  note count = New_loop_count_step [OF less]
  from Suc.hyps(2) count have "k = nat (sint n - sint (i + 1))"
    by simp
  then have "length (fst (New_loop heap varname lo up t n (i + 1) (c + 1))) =
      nat (sint n - sint (i + 1))"
    by (rule Suc.hyps(1))
  then show ?case
    unfolding New_loop_step [OF less] count by simp
qed

lemma New_loop_counter:
  "snd (New_loop heap varname lo up t n i c) = c + of_nat (nat (sint n - sint i))"
proof (induction k \<equiv> "nat (sint n - sint i)" arbitrary: i c)
  case 0
  then have "\<not> i <s n"
    by (simp add: word_sless_alt)
  with 0 show ?case
    by (simp add: New_loop_stop)
next
  case (Suc k)
  then have less: "i <s n"
    by (simp add: word_sless_alt)
  note count = New_loop_count_step [OF less]
  from Suc.hyps(2) count have "k = nat (sint n - sint (i + 1))"
    by simp
  then have "snd (New_loop heap varname lo up t n (i + 1) (c + 1)) =
      c + 1 + of_nat (nat (sint n - sint (i + 1)))"
    by (rule Suc.hyps(1))
  then show ?case
    unfolding New_loop_step [OF less] count by (simp add: add.assoc)
qed

lemma New_loop_nth:
  "j < nat (sint n - sint i) \<Longrightarrow>
     fst (New_loop heap varname lo up t n i c) ! j =
       fst (Variable_name_bounds
              (if varname \<noteq> [] then string_format_s_i varname (i + of_nat j) else [])
              lo up t (heap (unat (i + of_nat j))) (c + of_nat j))"
proof (induction j arbitrary: i c)
  case 0
  then have "i <s n"
    by (simp add: word_sless_alt)
  then show ?case
    by (simp add: New_loop_step)
next
  case (Suc j)
  then have less: "i <s n"
    by (simp add: word_sless_alt)
  with Suc.prems have "j < nat (sint n - sint (i + 1))"
    by (simp add: New_loop_count_step)
  then have "fst (New_loop heap varname lo up t n (i + 1) (c + 1)) ! j =
      fst (Variable_name_bounds
             (if varname \<noteq> [] then string_format_s_i varname (i + 1 + of_nat j) else [])
             lo up t (heap (unat (i + 1 + of_nat j))) (c + 1 + of_nat j))"
    by (rule Suc.IH)
  with less show ?case
    by (simp add: New_loop_step add.assoc)
qed

lemma Variable_name_bounds_result:
  "fst (Variable_name_bounds nm lo up t this c) =
     this\<lparr>idV := c, name := (if nm = [] then string_format_Var c else nm), solvers := [],
          assignedSolver := None, frozen := 0, upper := up, lower := lo, typeV := t\<rparr>"
  by (simp add: Variable_name_bounds_def GutsOfConstructor_def ModelEntity_ctor_def setName_def
      Let_def)

lemma Variable_name_bounds_eq:
  "Variable_name_bounds nm lo up t this c =
     (this\<lparr>idV := c, name := (if nm = [] then string_format_Var c else nm), solvers := [],
           assignedSolver := None, frozen := 0, upper := up, lower := lo, typeV := t\<rparr>,
      c + 1)"
  by (simp add: Variable_name_bounds_def GutsOfConstructor_def ModelEntity_ctor_def setName_def
      Let_def)

text \<open>
  The factory \<open>New(int n, varname, ...)\<close>. A negative \<open>n\<close> throws. Otherwise the call
  returns \<open>n\<close> variables and advances the counter by \<open>n\<close>; the \<open>j\<close>-th has the next id of
  the counter, the given bounds and type, and the name \<open><varname>_<j>\<close>, or its default
  name \<open>Var_<id>\<close> when \<open>varname\<close> is empty.
\<close>

theorem New_n_names:
  "(n <s 0 \<longrightarrow> New_n heap n varname lo up t c = Inl bad_array_new_length)
   \<and> (\<not> n <s 0 \<longrightarrow>
        (\<exists>vs. New_n heap n varname lo up t c = Inr (vs, c + n)
              \<and> length vs = nat (sint n)
              \<and> (\<forall>j<nat (sint n).
                   idV (vs ! j) = c + of_nat j
                   \<and> name (vs ! j) =
                       (if varname = [] then string_format_Var (idV (vs ! j))
                        else string_format_s_i varname (of_nat j))
                   \<and> lower (vs ! j) = lo \<and> upper (vs ! j) = up \<and> typeV (vs ! j) = t)))"
proof (intro conjI impI)
  assume "n <s 0"
  then show "New_n heap n varname lo up t c = Inl bad_array_new_length"
    by (simp add: New_n_def)
next
  assume nonneg: "\<not> n <s 0"
  then have n: "0 \<le> sint n"
    by (simp add: word_sless_alt)
  then have "(of_nat (nat (sint n)) :: int32) = n"
    by (simp add: of_nat_nat)
  then have counter: "snd (New_loop heap varname lo up t n 0 c) = c + n"
    by (simp add: New_loop_counter)
  let ?vs = "fst (New_loop heap varname lo up t n 0 c)"
  have "New_n heap n varname lo up t c = Inr (?vs, c + n)"
    using nonneg counter by (simp add: New_n_def flip: counter)
  moreover have "length ?vs = nat (sint n)"
    by (simp add: New_loop_length)
  moreover have "idV (?vs ! j) = c + of_nat j
      \<and> name (?vs ! j) =
          (if varname = [] then string_format_Var (idV (?vs ! j))
           else string_format_s_i varname (of_nat j))
      \<and> lower (?vs ! j) = lo \<and> upper (?vs ! j) = up \<and> typeV (?vs ! j) = t"
    if "j < nat (sint n)" for j
    using that by (simp add: New_loop_nth Variable_name_bounds_result string_format_s_i_def)
  ultimately show "\<exists>vs. New_n heap n varname lo up t c = Inr (vs, c + n)
      \<and> length vs = nat (sint n)
      \<and> (\<forall>j<nat (sint n).
           idV (vs ! j) = c + of_nat j
           \<and> name (vs ! j) =
               (if varname = [] then string_format_Var (idV (vs ! j))
                else string_format_s_i varname (of_nat j))
           \<and> lower (vs ! j) = lo \<and> upper (vs ! j) = up \<and> typeV (vs ! j) = t)"
    by blast
qed

text \<open>
  With the counter at 5: \<open>New(3, "x")\<close> names its variables \<open>x_0\<close>, \<open>x_1\<close>, \<open>x_2\<close> and gives
  them the ids 5, 6, 7; \<open>New(3)\<close> names them \<open>Var_5\<close>, \<open>Var_6\<close>, \<open>Var_7\<close>; \<open>New(-1, "x")\<close>
  throws.
\<close>

theorem New_n_names_witness:
  "\<not> (3 :: int32) <s 0
   \<and> (case New_n (\<lambda>j. example_storage) 3 ''x'' 0 1 Continuous 5 of
        Inr (vs, c) \<Rightarrow>
          map name vs = [''x_0'', ''x_1'', ''x_2''] \<and> map idV vs = [5, 6, 7] \<and> c = 8
      | Inl e \<Rightarrow> False)
   \<and> (case New_n (\<lambda>j. example_storage) 3 [] 0 1 Continuous 5 of
        Inr (vs, c) \<Rightarrow> map name vs = [''Var_5'', ''Var_6'', ''Var_7'']
      | Inl e \<Rightarrow> False)
   \<and> (- 1 :: int32) <s 0
   \<and> New_n (\<lambda>j. example_storage) (- 1) ''x'' 0 1 Continuous 5 = Inl bad_array_new_length"
  using New_n_names [of 3 "\<lambda>j. example_storage" "''x''" 0 1 Continuous 5]
    New_n_names [of "- 1" "\<lambda>j. example_storage" "''x''" 0 1 Continuous 5]
  by (simp add: New_n_def New_loop.simps word_sless_alt Variable_name_bounds_eq
      example_storage_def string_format_s_i_def string_format_Var_def
      show_int32_def show_nat.simps digit_char_def Let_def)

subsection \<open>The factory over an enumerated type\<close>

lemma New_enum_loop_step:
  "New_enum_loop to_int heap varname lo up t (i # rest) j tmp c =
     New_enum_loop to_int heap varname lo up t rest (Suc j)
       (tmp(i \<mapsto> fst (Variable_name_bounds
                        (if varname \<noteq> [] then string_format_s_i varname (to_int i) else [])
                        lo up t (heap j) c)))
       (c + 1)"
  by (simp add: Let_def Variable_name_bounds_eq)

lemma New_enum_loop_counter:
  "snd (New_enum_loop to_int heap varname lo up t keys j tmp c) = c + of_nat (length keys)"
proof (induction keys arbitrary: j tmp c)
  case Nil
  then show ?case by simp
next
  case (Cons i keys)
  then show ?case
    unfolding New_enum_loop_step by (simp add: add.assoc)
qed

lemma New_enum_loop_other:
  "key \<notin> set keys \<Longrightarrow>
     fst (New_enum_loop to_int heap varname lo up t keys j tmp c) key = tmp key"
proof (induction keys arbitrary: j tmp c)
  case Nil
  then show ?case by simp
next
  case (Cons i keys)
  then have "key \<noteq> i" and "key \<notin> set keys"
    by simp_all
  then show ?case
    unfolding New_enum_loop_step using Cons.IH by simp
qed

lemma New_enum_loop_lookup:
  "distinct keys \<Longrightarrow> p < length keys \<Longrightarrow>
     fst (New_enum_loop to_int heap varname lo up t keys j tmp c) (keys ! p) =
       Some (fst (Variable_name_bounds
                    (if varname \<noteq> [] then string_format_s_i varname (to_int (keys ! p)) else [])
                    lo up t (heap (j + p)) (c + of_nat p)))"
proof (induction keys arbitrary: j tmp c p)
  case Nil
  then show ?case by simp
next
  case (Cons i keys)
  define v where
    "v = fst (Variable_name_bounds
                (if varname \<noteq> [] then string_format_s_i varname (to_int i) else [])
                lo up t (heap j) c)"
  have step: "New_enum_loop to_int heap varname lo up t (i # keys) j tmp c =
      New_enum_loop to_int heap varname lo up t keys (Suc j) (tmp(i \<mapsto> v)) (c + 1)"
    unfolding New_enum_loop_step v_def ..
  show ?case
  proof (cases p)
    case 0
    from Cons.prems(1) have "i \<notin> set keys"
      by simp
    then have "fst (New_enum_loop to_int heap varname lo up t keys (Suc j) (tmp(i \<mapsto> v)) (c + 1)) i
        = (tmp(i \<mapsto> v)) i"
      by (rule New_enum_loop_other)
    then show ?thesis
      unfolding step 0 by (simp add: v_def)
  next
    case (Suc p')
    with Cons.prems have "distinct keys" and "p' < length keys"
      by simp_all
    then have "fst (New_enum_loop to_int heap varname lo up t keys (Suc j) (tmp(i \<mapsto> v)) (c + 1))
          (keys ! p') =
        Some (fst (Variable_name_bounds
                     (if varname \<noteq> [] then string_format_s_i varname (to_int (keys ! p')) else [])
                     lo up t (heap (Suc j + p')) (c + 1 + of_nat p')))"
      by (rule Cons.IH)
    then show ?thesis
      unfolding step Suc by (simp add: add.assoc)
  qed
qed

lemma New_enum_loop_dom:
  "dom (fst (New_enum_loop to_int heap varname lo up t keys j tmp c)) = dom tmp \<union> set keys"
proof (induction keys arbitrary: j tmp c)
  case Nil
  then show ?case by simp
next
  case (Cons i keys)
  show ?case
    unfolding New_enum_loop_step Cons.IH by auto
qed

text \<open>
  The factory \<open>New<T>(varname, ...)\<close> over an enumerated type. For a type that is no
  enumeration it throws. Otherwise, when the values of the type are pairwise different,
  it returns a mapping whose keys are these values and advances the counter by their
  number; the value of every position \<open>p\<close> is sent to a variable of its own, the \<open>p\<close>-th
  that the call creates, with the next id of the counter, the given bounds and type,
  and the name \<open><varname>_<value>\<close>, the value written as the integer that \<open>%i\<close> makes
  of it, or the default name \<open>Var_<id>\<close> when \<open>varname\<close> is empty.
\<close>

theorem New_enum_names:
  "(\<not> IsEnum \<longrightarrow>
      New_enum IsEnum GetValues to_int heap varname lo up t c =
        Inl (ArgumentException ''T must be an enumerated type''))
   \<and> (IsEnum \<longrightarrow> distinct GetValues \<longrightarrow>
        (\<exists>m. New_enum IsEnum GetValues to_int heap varname lo up t c =
                Inr (m, c + of_nat (length GetValues))
              \<and> dom m = set GetValues
              \<and> (\<forall>p<length GetValues.
                   \<exists>v. m (GetValues ! p) = Some v
                       \<and> idV v = c + of_nat p
                       \<and> name v =
                           (if varname = [] then string_format_Var (idV v)
                            else string_format_s_i varname (to_int (GetValues ! p)))
                       \<and> lower v = lo \<and> upper v = up \<and> typeV v = t)))"
proof (intro conjI impI)
  assume "\<not> IsEnum"
  then show "New_enum IsEnum GetValues to_int heap varname lo up t c =
      Inl (ArgumentException ''T must be an enumerated type'')"
    by (simp add: New_enum_def)
next
  assume enum: "IsEnum" and d: "distinct GetValues"
  let ?r = "New_enum_loop to_int heap varname lo up t GetValues 0 Map.empty c"
  have "New_enum IsEnum GetValues to_int heap varname lo up t c =
      Inr (fst ?r, c + of_nat (length GetValues))"
    using enum New_enum_loop_counter [of to_int heap varname lo up t GetValues 0 Map.empty c]
    by (simp add: New_enum_def prod_eq_iff)
  moreover have "dom (fst ?r) = set GetValues"
    by (simp add: New_enum_loop_dom)
  moreover have "\<exists>v. fst ?r (GetValues ! p) = Some v
      \<and> idV v = c + of_nat p
      \<and> name v =
          (if varname = [] then string_format_Var (idV v)
           else string_format_s_i varname (to_int (GetValues ! p)))
      \<and> lower v = lo \<and> upper v = up \<and> typeV v = t"
    if "p < length GetValues" for p
    using New_enum_loop_lookup [OF d that, of to_int heap varname lo up t 0 Map.empty c]
    by (simp add: Variable_name_bounds_result string_format_s_i_def)
  ultimately show "\<exists>m. New_enum IsEnum GetValues to_int heap varname lo up t c =
        Inr (m, c + of_nat (length GetValues))
      \<and> dom m = set GetValues
      \<and> (\<forall>p<length GetValues.
           \<exists>v. m (GetValues ! p) = Some v
               \<and> idV v = c + of_nat p
               \<and> name v =
                   (if varname = [] then string_format_Var (idV v)
                    else string_format_s_i varname (to_int (GetValues ! p)))
               \<and> lower v = lo \<and> upper v = up \<and> typeV v = t)"
    by blast
qed

text \<open>
  With the counter at 5 and the values 3 and 7: the base name \<open>x\<close> gives the variables
  \<open>x_3\<close> and \<open>x_7\<close> with the ids 5 and 6; no base name gives \<open>Var_5\<close> and \<open>Var_6\<close>; a type
  that is no enumeration throws.
\<close>

theorem New_enum_names_witness:
  "distinct [3, 7 :: int32]
   \<and> (case New_enum True [3, 7 :: int32] (\<lambda>k. k) (\<lambda>j. example_storage) ''x'' 0 1 Continuous 5 of
        Inr (m, c) \<Rightarrow>
          map_option name (m 3) = Some ''x_3'' \<and> map_option name (m 7) = Some ''x_7''
          \<and> map_option idV (m 3) = Some 5 \<and> map_option idV (m 7) = Some 6
          \<and> dom m = {3, 7} \<and> c = 7
      | Inl e \<Rightarrow> False)
   \<and> (case New_enum True [3, 7 :: int32] (\<lambda>k. k) (\<lambda>j. example_storage) [] 0 1 Continuous 5 of
        Inr (m, c) \<Rightarrow> map_option name (m 3) = Some ''Var_5'' \<and> map_option name (m 7) = Some ''Var_6''
      | Inl e \<Rightarrow> False)
   \<and> New_enum False [3, 7 :: int32] (\<lambda>k. k) (\<lambda>j. example_storage) ''x'' 0 1 Continuous 5 =
       Inl (ArgumentException ''T must be an enumerated type'')"
  using New_enum_names [of True "[3, 7 :: int32]" "\<lambda>k. k" "\<lambda>j. example_storage" "''x''" 0 1
      Continuous 5]
    New_enum_names [of False "[3, 7 :: int32]" "\<lambda>k. k" "\<lambda>j. example_storage" "''x''" 0 1
      Continuous 5]
  by (simp add: New_enum_def Let_def Variable_name_bounds_eq example_storage_def
      string_format_s_i_def string_format_Var_def show_int32_def show_nat.simps digit_char_def)

end
